theory Spec2Isabelle
  imports Main "HOL-Library.Word"
begin

section \<open>Strings and bytes\<close>

text \<open>
  Python \<open>str\<close> values are modelled as \<open>string\<close> (lists of \<open>char\<close>); a character stands
  for the code point of the same number, so the model covers text whose code points are
  below 256. Python \<open>bytes\<close> values are lists of 8-bit words.
\<close>

type_synonym byte = "8 word"
type_synonym bytes = "byte list"

text \<open>\<open>str.isspace\<close> on one character (code points below 256): tab, line feed, vertical
  tab, form feed, carriage return, the separators 28 to 31, space, NEL (133) and the
  no-break space (160).\<close>

definition py_isspace :: "char \<Rightarrow> bool" where
  "py_isspace c = (of_char c \<in> {9, 10, 11, 12, 13, 28, 29, 30, 31, 32, 133, 160 :: nat})"

text \<open>\<open>str.strip()\<close>, \<open>str.lstrip(chars)\<close> and \<open>str.rstrip(chars)\<close>.\<close>

definition py_strip :: "string \<Rightarrow> string" where
  "py_strip s = rev (dropWhile py_isspace (rev (dropWhile py_isspace s)))"

definition lstrip_chars :: "string \<Rightarrow> string \<Rightarrow> string" where
  "lstrip_chars cs s = dropWhile (\<lambda>c. c \<in> set cs) s"

definition rstrip_chars :: "string \<Rightarrow> string \<Rightarrow> string" where
  "rstrip_chars cs s = rev (dropWhile (\<lambda>c. c \<in> set cs) (rev s))"

text \<open>\<open>str.lower()\<close> on one character: the ASCII capitals and the capitals of the
  Latin-1 block (192 to 222 without the multiplication sign 215) move up by 32.\<close>

definition lower_char :: "char \<Rightarrow> char" where
  "lower_char c =
     (let n = (of_char c :: nat)
      in if (65 \<le> n \<and> n \<le> 90) \<or> (192 \<le> n \<and> n \<le> 222 \<and> n \<noteq> 215)
         then char_of (n + 32) else c)"

definition py_lower :: "string \<Rightarrow> string" where
  "py_lower s = map lower_char s"

text \<open>\<open>s.startswith(p)\<close> and the substring test \<open>sub in s\<close>.\<close>

fun startswith :: "string \<Rightarrow> string \<Rightarrow> bool" where
  "startswith s [] = True"
| "startswith [] (p # ps) = False"
| "startswith (c # cs) (p # ps) = (c = p \<and> startswith cs ps)"

fun py_in :: "string \<Rightarrow> string \<Rightarrow> bool" where
  "py_in sub [] = (sub = [])"
| "py_in sub (c # cs) = (startswith (c # cs) sub \<or> py_in sub cs)"

section \<open>Shell transport: \<open>run_adb\<close>\<close>

text \<open>
  What \<open>subprocess.run\<close> does is the environment's answer: the process completes with
  its two captured streams, or the call raises \<open>TimeoutExpired\<close>, \<open>FileNotFoundError\<close>
  or another exception (carried with its text \<open>str(e)\<close>).
\<close>

datatype proc_outcome =
    Completed bytes bytes
  | TimeoutExpired
  | FileNotFoundError
  | OtherException string

text \<open>\<open>bytes.decode('latin-1', errors='replace')\<close> maps each byte to the code point of
  the same number. \<open>bytes.decode('utf-8')\<close> is a parameter of the model: it returns
  \<open>None\<close> where Python raises \<open>UnicodeDecodeError\<close>.\<close>

definition decode_latin1 :: "bytes \<Rightarrow> string" where
  "decode_latin1 bs = map (\<lambda>b. char_of (unat b)) bs"

definition decode_stream :: "(bytes \<Rightarrow> string option) \<Rightarrow> bytes \<Rightarrow> string" where
  "decode_stream decode_utf8 bs =
     (case decode_utf8 bs of
        Some s \<Rightarrow> py_strip s
      | None \<Rightarrow> py_strip (decode_latin1 bs))"

definition run_adb_outcome :: "(bytes \<Rightarrow> string option) \<Rightarrow> proc_outcome \<Rightarrow> string" where
  "run_adb_outcome decode_utf8 outcome =
     (case outcome of
        Completed stdout stderr \<Rightarrow>
          (let out = decode_stream decode_utf8 stdout;
               err = decode_stream decode_utf8 stderr
           in if out \<noteq> [] then out else err)
      | TimeoutExpired \<Rightarrow> ''adb command timed out.''
      | FileNotFoundError \<Rightarrow> ''adb not found.''
      | OtherException e \<Rightarrow> ''adb error: '' @ e)"

text \<open>\<open>run_adb(args, timeout)\<close>: one process is spawned with the command line
  \<open>["adb"] + args\<close>; the world \<open>'w\<close> is threaded through the call.\<close>

definition run_adb ::
  "(string list \<Rightarrow> nat \<Rightarrow> 'w \<Rightarrow> proc_outcome \<times> 'w) \<Rightarrow> (bytes \<Rightarrow> string option) \<Rightarrow>
   string list \<Rightarrow> nat \<Rightarrow> 'w \<Rightarrow> string \<times> 'w" where
  "run_adb subprocess_run decode_utf8 args timeout w =
     (case subprocess_run (''adb'' # args) timeout w of
        (outcome, w') \<Rightarrow> (run_adb_outcome decode_utf8 outcome, w'))"

text \<open>For the examples: UTF-8 decoding restricted to ASCII input (any other byte is
  refused, which sends the caller to the Latin-1 fallback), and processes that complete
  with fixed streams whatever the command.\<close>

definition decode_utf8_ascii :: "bytes \<Rightarrow> string option" where
  "decode_utf8_ascii bs =
     (if list_all (\<lambda>b. unat b < 128) bs then Some (map (\<lambda>b. char_of (unat b)) bs) else None)"

definition silent_process :: "string list \<Rightarrow> nat \<Rightarrow> unit \<Rightarrow> proc_outcome \<times> unit" where
  "silent_process cmd timeout w = (Completed [] [], w)"

definition stderr_process :: "string list \<Rightarrow> nat \<Rightarrow> unit \<Rightarrow> proc_outcome \<times> unit" where
  "stderr_process cmd timeout w = (Completed [0x20, 0x0A] [0x65, 0x72, 0x72, 0xE9, 0x0A], w)"

section \<open>Query fallback engine\<close>

text \<open>The fixed list of error markers and the success test of
  \<open>query_content_provider_with_fallbacks\<close>: the result is non-empty and its lower-cased
  text contains none of the markers.\<close>

definition error_markers :: "string list" where
  "error_markers =
     [''error'', ''exception'', ''denied'', ''failed'', ''unknown'',
      ''no such'', ''unable'', ''cannot'', ''not found'']"

definition indicates_success :: "string \<Rightarrow> bool" where
  "indicates_success result =
     (result \<noteq> [] \<and> \<not> list_ex (\<lambda>err. py_in err (py_lower result)) error_markers)"

text \<open>The argument list handed to \<open>run_adb\<close> for one combination.\<close>

definition query_args :: "string \<times> string \<Rightarrow> string list" where
  "query_args c =
     (case c of (uri, projection) \<Rightarrow>
        if projection \<noteq> []
        then [''shell'', ''content'', ''query'', ''--uri'', uri, ''--projection'', projection]
        else [''shell'', ''content'', ''query'', ''--uri'', uri])"

type_synonym query_result = "bool \<times> string \<times> string option \<times> string option"

text \<open>The inner loop over the projections for one URI; \<open>None\<close> when the loop ends
  without a \<open>return\<close>. The transport is a function of the argument list and the world.\<close>

fun try_projections ::
  "(string list \<Rightarrow> 'w \<Rightarrow> string \<times> 'w) \<Rightarrow> string \<Rightarrow> string list \<Rightarrow> 'w \<Rightarrow>
   query_result option \<times> 'w" where
  "try_projections run uri [] w = (None, w)"
| "try_projections run uri (projection # rest) w =
     (case run (query_args (uri, projection)) w of
        (result, w') \<Rightarrow>
          if indicates_success result
          then (Some (True, result, Some uri, Some projection), w')
          else try_projections run uri rest w')"

fun query_content_provider_with_fallbacks ::
  "(string list \<Rightarrow> 'w \<Rightarrow> string \<times> 'w) \<Rightarrow> string list \<Rightarrow> string list \<Rightarrow> string \<Rightarrow> 'w \<Rightarrow>
   query_result \<times> 'w" where
  "query_content_provider_with_fallbacks run [] projection_variants label w =
     ((False, ''All '' @ label @ '' query attempts failed.'', None, None), w)"
| "query_content_provider_with_fallbacks run (uri # rest) projection_variants label w =
     (case try_projections run uri projection_variants w of
        (Some r, w') \<Rightarrow> (r, w')
      | (None, w') \<Rightarrow> query_content_provider_with_fallbacks run rest projection_variants label w')"

text \<open>A transport that records every call, with its answer, in a log kept beside the
  world: the observer used to state which combinations were attempted.\<close>

definition logged ::
  "(string list \<Rightarrow> 'w \<Rightarrow> string \<times> 'w) \<Rightarrow> string list \<Rightarrow>
   (string list \<times> string) list \<times> 'w \<Rightarrow> string \<times> ((string list \<times> string) list \<times> 'w)" where
  "logged run args lw =
     (case lw of (calls, w) \<Rightarrow>
        (case run args w of (result, w') \<Rightarrow> (result, (calls @ [(args, result)], w'))))"

text \<open>The two nested loops run through the combinations in the order of
  \<open>List.product uri_variants projection_variants\<close>; this is the same loop over that
  list, used to reason about the nested one.\<close>

fun try_combos ::
  "(string list \<Rightarrow> 'w \<Rightarrow> string \<times> 'w) \<Rightarrow> (string \<times> string) list \<Rightarrow> 'w \<Rightarrow>
   query_result option \<times> 'w" where
  "try_combos run [] w = (None, w)"
| "try_combos run (c # cs) w =
     (case run (query_args c) w of
        (result, w') \<Rightarrow>
          if indicates_success result
          then (Some (True, result, Some (fst c), Some (snd c)), w')
          else try_combos run cs w')"

text \<open>A stub transport for the ordering scenario: only the combination of the second
  URI with the first projection answers with rows.\<close>

definition stub_transport :: "string list \<Rightarrow> unit \<Rightarrow> string \<times> unit" where
  "stub_transport args w =
     (if args = query_args (''content://sms/inbox'', ''address:date:body'')
      then (''Row: 0 address=5551234, date=1700000000000, body=Hi'', w)
      else (''Error: permission denied'', w))"

section \<open>Filesystem discovery engine\<close>

text \<open>\<open>str.splitlines()\<close>: the line boundaries among the code points below 256 are
  line feed, carriage return (alone or followed by a line feed), vertical tab, form feed,
  the separators 28 to 30 and NEL (133). The first argument collects the current line in
  reverse.\<close>

definition is_linebreak :: "char \<Rightarrow> bool" where
  "is_linebreak c = (of_char c \<in> {10, 11, 12, 13, 28, 29, 30, 133 :: nat})"

fun splitlines_from :: "string \<Rightarrow> string \<Rightarrow> string list" where
  "splitlines_from cur [] = (if cur = [] then [] else [rev cur])"
| "splitlines_from cur [c] = (if is_linebreak c then [rev cur] else [rev (c # cur)])"
| "splitlines_from cur (c # d # cs) =
     (if c = CHR 0x0D \<and> d = CHR 0x0A then rev cur # splitlines_from [] cs
      else if is_linebreak c then rev cur # splitlines_from [] (d # cs)
      else splitlines_from (c # cur) (d # cs))"

definition splitlines :: "string \<Rightarrow> string list" where
  "splitlines s = splitlines_from [] s"

text \<open>\<open>s.replace("//", "/")\<close>: the occurrences are replaced from the left and do not
  overlap.\<close>

fun replace_double_slash :: "string \<Rightarrow> string" where
  "replace_double_slash (a # b # cs) =
     (if a = CHR ''/'' \<and> b = CHR ''/'' then CHR ''/'' # replace_double_slash cs
      else a # replace_double_slash (b # cs))"
| "replace_double_slash cs = cs"

text \<open>The two remote primitives, over a shell that answers each command line with a
  text (\<open>run_adb\<close> with its default timeout, on a device whose answers depend on the
  command only).\<close>

definition is_directory :: "(string list \<Rightarrow> string) \<Rightarrow> string \<Rightarrow> bool" where
  "is_directory sh path =
     py_in ''DIR''
       (sh [''shell'', ''[ -d '' @ [CHR 0x22] @ path @ [CHR 0x22] @ '' ] && echo DIR || echo FILE''])"

definition list_directory :: "(string list \<Rightarrow> string) \<Rightarrow> string \<Rightarrow> string list" where
  "list_directory sh path =
     (let out = sh [''shell'', ''ls'', ''-1'', path]
      in if out = [] \<or> py_in ''No such'' out \<or> py_in ''denied'' (py_lower out) then []
         else map py_strip (filter (\<lambda>line. py_strip line \<noteq> []) (splitlines out)))"

record discovered_path =
  path :: string
  is_dir :: bool

text \<open>The full path of a listed child: \<open>f"{current}/{name}".replace("//", "/")\<close>.\<close>

definition full_path :: "string \<Rightarrow> string \<Rightarrow> string" where
  "full_path current name = replace_double_slash (current @ ''/'' @ name)"

definition special_name :: "string \<Rightarrow> bool" where
  "special_name name = (py_in '' -> '' name \<or> startswith name ''.'')"

text \<open>One turn of the \<open>for name in entries\<close> loop, on the pair of the \<open>discovered\<close>
  list and the stack. The stack is a Python list: its top is its last element.\<close>

definition scan_entry ::
  "(string \<Rightarrow> bool) \<Rightarrow> string \<Rightarrow> string \<Rightarrow>
   discovered_path list \<times> string list \<Rightarrow> discovered_path list \<times> string list" where
  "scan_entry is_dir_oracle current name ds =
     (case ds of (discovered, stack) \<Rightarrow>
        (let full = full_path current name
         in if special_name name
            then (if is_dir_oracle full
                  then (discovered @ [\<lparr>path = full, is_dir = True\<rparr>], stack @ [full])
                  else (discovered, stack))
            else if is_dir_oracle full
                 then (discovered @ [\<lparr>path = full, is_dir = True\<rparr>], stack @ [full])
                 else (discovered @ [\<lparr>path = full, is_dir = False\<rparr>], stack)))"

text \<open>The \<open>while stack\<close> loop. The \<open>visited\<close> set is kept as the list of its elements in
  the order they were added; the loop only tests membership and adds. The loop returns
  the final \<open>visited\<close> and \<open>discovered\<close>; it is a partial function, \<open>None\<close> when the
  loop runs forever.\<close>

partial_function (option) scan_loop ::
  "(string \<Rightarrow> string list) \<Rightarrow> (string \<Rightarrow> bool) \<Rightarrow> string list \<Rightarrow> string list \<Rightarrow>
   discovered_path list \<Rightarrow> (string list \<times> discovered_path list) option" where
  "scan_loop list_dir_oracle is_dir_oracle stack visited discovered =
     (if stack = [] then Some (visited, discovered)
      else
        let current = last stack; stack1 = butlast stack
        in if current \<in> set visited
           then scan_loop list_dir_oracle is_dir_oracle stack1 visited discovered
           else
             let visited1 = visited @ [current];
                 entries = list_dir_oracle current
             in if entries = []
                then scan_loop list_dir_oracle is_dir_oracle stack1 visited1 discovered
                else (case fold (scan_entry is_dir_oracle current) entries (discovered, stack1) of
                        (discovered1, stack2) \<Rightarrow>
                          scan_loop list_dir_oracle is_dir_oracle stack2 visited1 discovered1))"

declare scan_loop.simps [code]

definition brute_scan_fs ::
  "(string \<Rightarrow> string list) \<Rightarrow> (string \<Rightarrow> bool) \<Rightarrow> string \<Rightarrow> discovered_path list option" where
  "brute_scan_fs list_dir_oracle is_dir_oracle root =
     map_option snd (scan_loop list_dir_oracle is_dir_oracle [rstrip_chars ''/'' root] [] [])"
section \<open>Local file system, hashing and the manifest\<close>

text \<open>
  The local file system as the code observes it: a path names nothing, a directory, or a
  regular file with its bytes, which may or may not be readable by the process.
  \<open>os.path.getsize\<close> of a regular file is the length of its bytes. A modification time is
  a Python float, kept as a pair \<open>(m, e)\<close> that stands for \<open>m * 2 ^ e\<close>; the code only copies
  it. Exceptions are values.
\<close>

type_synonym pyfloat = "int \<times> int"

datatype fs_node =
    RegularFile bytes bool pyfloat
  | Directory nat pyfloat

type_synonym local_fs = "string \<Rightarrow> fs_node option"

datatype py_exception =
    StructError
  | IsADirectoryError string
  | PermissionError string
  | FileNotFoundError' string
  | OSError string
  | AttributeError
  | IndexError
  | ValueError

definition os_path_exists :: "local_fs \<Rightarrow> string \<Rightarrow> bool" where
  "os_path_exists fs p = (fs p \<noteq> None)"

definition os_path_getsize :: "local_fs \<Rightarrow> string \<Rightarrow> nat" where
  "os_path_getsize fs p =
     (case fs p of Some (RegularFile bs r t) \<Rightarrow> length bs | Some (Directory n t) \<Rightarrow> n | None \<Rightarrow> 0)"

definition os_path_getmtime :: "local_fs \<Rightarrow> string \<Rightarrow> pyfloat" where
  "os_path_getmtime fs p =
     (case fs p of Some (RegularFile bs r t) \<Rightarrow> t | Some (Directory n t) \<Rightarrow> t | None \<Rightarrow> (0, 0))"

text \<open>\<open>open(path, "rb")\<close> followed by reading the whole file.\<close>

definition open_rb :: "local_fs \<Rightarrow> string \<Rightarrow> py_exception + bytes" where
  "open_rb fs p =
     (case fs p of
        None \<Rightarrow> Inl (FileNotFoundError' p)
      | Some (Directory n t) \<Rightarrow> Inl (IsADirectoryError p)
      | Some (RegularFile bs r t) \<Rightarrow> if r then Inr bs else Inl (PermissionError p))"

text \<open>The chunks delivered by \<open>while chunk := f.read(chunk_size)\<close>.\<close>

function read_chunks :: "nat \<Rightarrow> bytes \<Rightarrow> bytes list" where
  "read_chunks n bs =
     (if n = 0 \<or> bs = [] then [] else take n bs # read_chunks n (drop n bs))"
  by pat_completeness auto
termination
  by (relation "measure (\<lambda>(n, bs). length bs)") auto

declare read_chunks.simps [simp del]

definition chunk_size :: nat where
  "chunk_size = 4 * 1024 * 1024"

record digests =
  md5 :: "string option"
  sha1 :: "string option"
  sha256 :: "string option"

record manifest_entry =
  remote_path :: string
  local_path :: string
  size_bytes :: nat
  mtime :: pyfloat
  hashes :: digests
  adb_result :: string

definition null_digests :: digests where
  "null_digests = \<lparr>md5 = None, sha1 = None, sha256 = None\<rparr>"

text \<open>The environment of the extraction: the three hash functions (hex digest of a byte
  string), \<open>os.path.abspath\<close>, \<open>os.makedirs(path, exist_ok=True)\<close> (which may raise) and
  the effect of \<open>run_adb(["pull", remote, local], timeout=240)\<close> on the local file system
  together with the text it returns.\<close>

record environment =
  md5_hex :: "bytes \<Rightarrow> string"
  sha1_hex :: "bytes \<Rightarrow> string"
  sha256_hex :: "bytes \<Rightarrow> string"
  abspath :: "string \<Rightarrow> string"
  os_makedirs :: "string \<Rightarrow> local_fs \<Rightarrow> py_exception + local_fs"
  adb_pull :: "string \<Rightarrow> string \<Rightarrow> local_fs \<Rightarrow> string \<times> local_fs"

text \<open>\<open>compute_hashes\<close>: the three digests are updated chunk by chunk, so each is the
  digest of the concatenation of the chunks; any exception gives three nulls.\<close>

definition compute_hashes :: "environment \<Rightarrow> local_fs \<Rightarrow> string \<Rightarrow> digests" where
  "compute_hashes env fs p =
     (case open_rb fs p of
        Inl e \<Rightarrow> null_digests
      | Inr bs \<Rightarrow>
          (let data = concat (read_chunks chunk_size bs)
           in \<lparr>md5 = Some (md5_hex env data), sha1 = Some (sha1_hex env data),
               sha256 = Some (sha256_hex env data)\<rparr>))"

text \<open>\<open>os.path.join\<close> and \<open>os.path.dirname\<close> (POSIX).\<close>

definition os_path_join :: "string \<Rightarrow> string \<Rightarrow> string" where
  "os_path_join a b =
     (if startswith b ''/'' then b
      else if a = [] \<or> last a = CHR ''/'' then a @ b
      else a @ ''/'' @ b)"

definition os_path_dirname :: "string \<Rightarrow> string" where
  "os_path_dirname p =
     (let head = rev (dropWhile (\<lambda>c. c \<noteq> CHR ''/'') (rev p))
      in if head \<noteq> [] \<and> \<not> list_all (\<lambda>c. c = CHR ''/'') head
         then rstrip_chars ''/'' head else head)"

section \<open>Extraction and manifest builder\<close>

text \<open>The body of the \<open>for entry in fs_items\<close> loop for one non-directory entry.\<close>

definition extract_entry ::
  "environment \<Rightarrow> string \<Rightarrow> string \<Rightarrow> local_fs \<Rightarrow> py_exception + (manifest_entry \<times> local_fs)" where
  "extract_entry env dest_root remote fs =
     (let local = os_path_join dest_root (lstrip_chars ''/'' remote)
      in case os_makedirs env (os_path_dirname local) fs of
           Inl e \<Rightarrow> Inl e
         | Inr fs1 \<Rightarrow>
             (case adb_pull env remote local fs1 of
                (adb_out, fs2) \<Rightarrow>
                  Inr (\<lparr>remote_path = remote,
                        local_path = local,
                        size_bytes = (if os_path_exists fs2 local then os_path_getsize fs2 local else 0),
                        mtime = (if os_path_exists fs2 local then os_path_getmtime fs2 local else (0, 0)),
                        hashes = (if os_path_exists fs2 local then compute_hashes env fs2 local
                                  else null_digests),
                        adb_result = adb_out\<rparr>, fs2)))"

fun extract_entries ::
  "environment \<Rightarrow> string \<Rightarrow> discovered_path list \<Rightarrow> manifest_entry list \<Rightarrow> local_fs \<Rightarrow>
   py_exception + (manifest_entry list \<times> local_fs)" where
  "extract_entries env dest_root [] manifest fs = Inr (manifest, fs)"
| "extract_entries env dest_root (entry # rest) manifest fs =
     (if is_dir entry then extract_entries env dest_root rest manifest fs
      else case extract_entry env dest_root (path entry) fs of
             Inl e \<Rightarrow> Inl e
           | Inr (m, fs') \<Rightarrow> extract_entries env dest_root rest (manifest @ [m]) fs')"

text \<open>\<open>brute_extract_folder\<close>: \<open>None\<close> when the discovery never returns, \<open>Inl\<close> when
  creating a local directory raises (the function has no handler), else the manifest and
  the local file system it leaves.\<close>

definition brute_extract_folder ::
  "environment \<Rightarrow> (string \<Rightarrow> string list) \<Rightarrow> (string \<Rightarrow> bool) \<Rightarrow> string \<Rightarrow> string \<Rightarrow> local_fs \<Rightarrow>
   (py_exception + (manifest_entry list \<times> local_fs)) option" where
  "brute_extract_folder env list_dir_oracle is_dir_oracle remote_root dest_root fs =
     (let remote_root1 = rstrip_chars ''/'' remote_root;
          dest_root1 = abspath env dest_root
      in case os_makedirs env dest_root1 fs of
           Inl e \<Rightarrow> Some (Inl e)
         | Inr fs1 \<Rightarrow>
             (case brute_scan_fs list_dir_oracle is_dir_oracle remote_root1 of
                None \<Rightarrow> None
              | Some fs_items \<Rightarrow> Some (extract_entries env dest_root1 fs_items [] fs1)))"

section \<open>Archive serializer\<close>














text \<open>Sample hosts for the extraction: the device lists one file and one directory; the
  pull leaves a fixed local file system and returns a fixed text. In \<open>locked_fs\<close> the local
  file exists and cannot be read (left by an earlier run under another account); in
  \<open>pulled_fs\<close> it was retrieved.\<close>

definition locked_fs :: local_fs where
  "locked_fs p =
     (if p = ''/evidence/sdcard/notes.txt'' then Some (RegularFile [1, 2, 3] False (0, 0))
      else None)"

definition pulled_fs :: local_fs where
  "pulled_fs p =
     (if p = ''/evidence/sdcard/notes.txt'' then Some (RegularFile [1, 2, 3] True (0, 0))
      else None)"

definition empty_fs :: local_fs where
  "empty_fs p = None"

definition notes_list :: "string \<Rightarrow> string list" where
  "notes_list p = (if p = ''/sdcard'' then [''notes.txt'', ''DCIM''] else [])"

definition notes_is_dir :: "string \<Rightarrow> bool" where
  "notes_is_dir p = (p = ''/sdcard/DCIM'')"

definition sample_env :: "local_fs \<Rightarrow> string \<Rightarrow> environment" where
  "sample_env after_pull answer =
     \<lparr>md5_hex = (\<lambda>bs. ''md5-digest''),
      sha1_hex = (\<lambda>bs. ''sha1-digest''),
      sha256_hex = (\<lambda>bs. ''sha256-digest''),
      abspath = (\<lambda>p. p),
      os_makedirs = (\<lambda>p fs. Inr fs),
      adb_pull = (\<lambda>remote local fs. (answer, after_pull))\<rparr>"

section \<open>Regular expressions\<close>

text \<open>
  The part of Python's \<open>re\<close> that the parsers use, as a backtracking matcher: literals,
  repetition of one character class (greedy or lazy, with a least count), sequence,
  alternation, capturing groups, positive lookahead, \<open>\Z\<close> and \<open>$\<close>. The flags are
  \<open>re.IGNORECASE\<close> and \<open>re.DOTALL\<close>. A character class is a test on one character.
\<close>

datatype flags = Flags (ignorecase: bool) (dotall: bool)

type_synonym cclass = "flags \<Rightarrow> char \<Rightarrow> bool"

definition same_char :: "flags \<Rightarrow> char \<Rightarrow> char \<Rightarrow> bool" where
  "same_char f a c = (if ignorecase f then lower_char a = lower_char c else a = c)"

text \<open>\<open>.\<close>, \<open>\d\<close>, \<open>\s\<close>, \<open>\w\<close>, one literal character, and a set \<open>[...]\<close>, on the code
  points below 256.\<close>

definition re_any :: cclass where
  "re_any f c = (dotall f \<or> c \<noteq> CHR 0x0A)"

definition re_digit :: cclass where
  "re_digit f c = (48 \<le> (of_char c :: nat) \<and> (of_char c :: nat) \<le> 57)"

definition re_space :: cclass where
  "re_space f c = py_isspace c"

definition re_word :: cclass where
  "re_word f c =
     (let n = (of_char c :: nat)
      in (48 \<le> n \<and> n \<le> 57) \<or> (65 \<le> n \<and> n \<le> 90) \<or> n = 95 \<or> (97 \<le> n \<and> n \<le> 122) \<or>
         n = 170 \<or> n = 178 \<or> n = 179 \<or> n = 181 \<or> n = 185 \<or> n = 186 \<or>
         (188 \<le> n \<and> n \<le> 190) \<or> (192 \<le> n \<and> n \<le> 214) \<or> (216 \<le> n \<and> n \<le> 246) \<or>
         (248 \<le> n \<and> n \<le> 255))"

definition re_chr :: "char \<Rightarrow> cclass" where
  "re_chr a f c = same_char f a c"

definition re_set :: "cclass list \<Rightarrow> cclass" where
  "re_set cs f c = list_ex (\<lambda>p. p f c) cs"

datatype regex =
    Eps
  | Lit string
  | Rep cclass nat bool
  | Seq regex regex
  | Alt regex regex
  | Group string regex
  | Lookahead regex
  | EndZ
  | Dollar

text \<open>\<open>Rep p n True\<close> is the greedy repetition of \<open>p\<close> at least \<open>n\<close> times (\<open>p*\<close> for 0, \<open>p+\<close>
  for 1); \<open>Rep p n False\<close> is the lazy one (\<open>p*?\<close>). A pattern is written as the list of
  its parts.\<close>

definition cat :: "regex list \<Rightarrow> regex" where
  "cat rs = foldr Seq rs Eps"

type_synonym caps = "(string \<times> string) list"

text \<open>A literal at the head of the text: the rest of the text, if it matches.\<close>

fun lit_match :: "flags \<Rightarrow> string \<Rightarrow> string \<Rightarrow> string option" where
  "lit_match f [] s = Some s"
| "lit_match f (a # w) [] = None"
| "lit_match f (a # w) (c # s) = (if same_char f a c then lit_match f w s else None)"

text \<open>Repetition with backtracking: the greedy one takes as many characters as it can and
  gives them back one at a time; the lazy one tries the continuation first.\<close>

fun rep_greedy :: "(char \<Rightarrow> bool) \<Rightarrow> nat \<Rightarrow> string \<Rightarrow> (string \<Rightarrow> 'r option) \<Rightarrow> 'r option" where
  "rep_greedy p n [] k = (if n = 0 then k [] else None)"
| "rep_greedy p n (c # cs) k =
     (if p c
      then (case rep_greedy p (n - 1) cs k of
              Some r \<Rightarrow> Some r
            | None \<Rightarrow> if n = 0 then k (c # cs) else None)
      else if n = 0 then k (c # cs) else None)"

fun rep_lazy :: "(char \<Rightarrow> bool) \<Rightarrow> nat \<Rightarrow> string \<Rightarrow> (string \<Rightarrow> 'r option) \<Rightarrow> 'r option" where
  "rep_lazy p n [] k = (if n = 0 then k [] else None)"
| "rep_lazy p n (c # cs) k =
     (if n = 0
      then (case k (c # cs) of
              Some r \<Rightarrow> Some r
            | None \<Rightarrow> if p c then rep_lazy p 0 cs k else None)
      else if p c then rep_lazy p (n - 1) cs k else None)"

text \<open>The matcher, in continuation-passing style: \<open>rmatch f r s c k\<close> matches \<open>r\<close> at the head
  of \<open>s\<close> with the captures \<open>c\<close> so far and hands the rest of the text and the captures to
  \<open>k\<close>; when \<open>k\<close> fails the matcher backtracks. \<open>$\<close> matches at the end of the text and
  before a line feed that ends the text.\<close>

primrec rmatch ::
  "flags \<Rightarrow> regex \<Rightarrow> string \<Rightarrow> caps \<Rightarrow> (string \<Rightarrow> caps \<Rightarrow> (string \<times> caps) option) \<Rightarrow>
   (string \<times> caps) option" where
  "rmatch f Eps s c k = k s c"
| "rmatch f (Lit w) s c k = (case lit_match f w s of None \<Rightarrow> None | Some s' \<Rightarrow> k s' c)"
| "rmatch f (Rep p n greedy) s c k =
     (if greedy then rep_greedy (p f) n s (\<lambda>s'. k s' c) else rep_lazy (p f) n s (\<lambda>s'. k s' c))"
| "rmatch f (Seq a b) s c k = rmatch f a s c (\<lambda>s' c'. rmatch f b s' c' k)"
| "rmatch f (Alt a b) s c k =
     (case rmatch f a s c k of Some r \<Rightarrow> Some r | None \<Rightarrow> rmatch f b s c k)"
| "rmatch f (Group name a) s c k =
     rmatch f a s c (\<lambda>s' c'. k s' ((name, take (length s - length s') s) # c'))"
| "rmatch f (Lookahead a) s c k =
     (case rmatch f a s c (\<lambda>s' c'. Some (s', c')) of
        None \<Rightarrow> None
      | Some (s', c') \<Rightarrow> k s c')"
| "rmatch f EndZ s c k = (if s = [] then k s c else None)"
| "rmatch f Dollar s c k = (if s = [] \<or> s = [CHR 0x0A] then k s c else None)"

definition match_here :: "flags \<Rightarrow> regex \<Rightarrow> string \<Rightarrow> (string \<times> caps) option" where
  "match_here f r s = rmatch f r s [] (\<lambda>s' c. Some (s', c))"

primrec group_names :: "regex \<Rightarrow> string list" where
  "group_names Eps = []"
| "group_names (Lit w) = []"
| "group_names (Rep p n greedy) = []"
| "group_names (Seq a b) = group_names a @ group_names b"
| "group_names (Alt a b) = group_names a @ group_names b"
| "group_names (Group name a) = name # group_names a"
| "group_names (Lookahead a) = group_names a"
| "group_names EndZ = []"
| "group_names Dollar = []"

text \<open>A match object: the group names of its pattern and the captured texts. \<open>re.search\<close>
  tries every start position from the left; \<open>re.finditer\<close> goes on after the end of each
  match (one character further after an empty match).\<close>

type_synonym match = "string list \<times> caps"

fun re_search :: "flags \<Rightarrow> regex \<Rightarrow> string \<Rightarrow> match option" where
  "re_search f r [] =
     (case match_here f r [] of None \<Rightarrow> None | Some (s', c) \<Rightarrow> Some (group_names r, c))"
| "re_search f r (x # xs) =
     (case match_here f r (x # xs) of
        None \<Rightarrow> re_search f r xs
      | Some (s', c) \<Rightarrow> Some (group_names r, c))"

function re_finditer :: "flags \<Rightarrow> regex \<Rightarrow> string \<Rightarrow> match list" where
  "re_finditer f r s =
     (case match_here f r s of
        None \<Rightarrow> (case s of [] \<Rightarrow> [] | x # xs \<Rightarrow> re_finditer f r xs)
      | Some (s', c) \<Rightarrow>
          (group_names r, c) #
            (if length s' < length s then re_finditer f r s'
             else (case s of [] \<Rightarrow> [] | x # xs \<Rightarrow> re_finditer f r xs)))"
  by pat_completeness auto
termination
  by (relation "measure (\<lambda>(f, r, s). length s)") auto

declare re_finditer.simps [simp del]

text \<open>\<open>match.group(name)\<close>: \<open>IndexError\<close> for a name the pattern does not have, \<open>None\<close> for a
  group that took no part in the match.\<close>

definition match_group :: "match \<Rightarrow> string \<Rightarrow> py_exception + string option" where
  "match_group m name =
     (if name \<in> set (fst m) then Inr (map_of (snd m) name) else Inl IndexError)"

section \<open>Numbers and dates\<close>

text \<open>\<open>str(n)\<close> for an integer.\<close>

definition digit_char :: "int \<Rightarrow> char" where
  "digit_char n = char_of (48 + n)"

function show_digits :: "int \<Rightarrow> string" where
  "show_digits n =
     (if n < 10 then [digit_char n] else show_digits (n div 10) @ [digit_char (n mod 10)])"
  by pat_completeness auto
termination
  by (relation "measure nat") auto

declare show_digits.simps [simp del]

definition show_int :: "int \<Rightarrow> string" where
  "show_int i = (if i < 0 then CHR ''-'' # show_digits (- i) else show_digits i)"

text \<open>\<open>int(s)\<close> for a string: surrounding white space is dropped (tab to carriage return,
  space, NEL and the no-break space), then an optional sign, then decimal digits, where
  single underscores may stand between digits; anything else raises \<open>ValueError\<close>. The
  limit that recent Python versions put on the number of digits is not modelled.\<close>

definition is_digit :: "char \<Rightarrow> bool" where
  "is_digit c = (48 \<le> (of_char c :: nat) \<and> (of_char c :: nat) \<le> 57)"

definition digit_value :: "char \<Rightarrow> int" where
  "digit_value c = of_char c - 48"

definition int_space :: "char \<Rightarrow> bool" where
  "int_space c = (of_char c \<in> {9, 10, 11, 12, 13, 32, 133, 160 :: nat})"

fun parse_digits :: "int \<Rightarrow> string \<Rightarrow> int option" where
  "parse_digits acc [] = Some acc"
| "parse_digits acc [c] = (if is_digit c then Some (acc * 10 + digit_value c) else None)"
| "parse_digits acc (c # d # cs) =
     (if is_digit c then parse_digits (acc * 10 + digit_value c) (d # cs)
      else if c = CHR ''_'' \<and> is_digit d then parse_digits acc (d # cs)
      else None)"

definition parse_unsigned :: "string \<Rightarrow> int option" where
  "parse_unsigned s =
     (case s of [] \<Rightarrow> None | c # cs \<Rightarrow> if is_digit c then parse_digits 0 s else None)"

definition py_int :: "string \<Rightarrow> py_exception + int" where
  "py_int s =
     (let t = rev (dropWhile int_space (rev (dropWhile int_space s)))
      in case t of
           [] \<Rightarrow> Inl ValueError
         | c # cs \<Rightarrow>
             if c = CHR ''-''
             then (case parse_unsigned cs of None \<Rightarrow> Inl ValueError | Some n \<Rightarrow> Inr (- n))
             else if c = CHR ''+''
             then (case parse_unsigned cs of None \<Rightarrow> Inl ValueError | Some n \<Rightarrow> Inr n)
             else (case parse_unsigned t of None \<Rightarrow> Inl ValueError | Some n \<Rightarrow> Inr n))"

text \<open>The civil date of a day number (days since 1970-01-01) in the proleptic Gregorian
  calendar, and \<open>strftime("%Y-%m-%d %H:%M:%S")\<close> of a number of seconds of local time
  since the epoch. \<open>datetime.fromtimestamp\<close> raises when the year leaves 1 to 9999.\<close>

definition civil_from_days :: "int \<Rightarrow> int \<times> int \<times> int" where
  "civil_from_days days =
     (let z = days + 719468;
          era = z div 146097;
          doe = z - era * 146097;
          yoe = (doe - doe div 1460 + doe div 36524 - doe div 146096) div 365;
          y = yoe + era * 400;
          doy = doe - (365 * yoe + yoe div 4 - yoe div 100);
          mp = (5 * doy + 2) div 153;
          d = doy - (153 * mp + 2) div 5 + 1;
          m = (if mp < 10 then mp + 3 else mp - 9)
      in (if m \<le> 2 then y + 1 else y, m, d))"

definition pad2 :: "int \<Rightarrow> string" where
  "pad2 n = (if n < 10 then CHR ''0'' # show_digits n else show_digits n)"

definition format_datetime :: "int \<Rightarrow> string" where
  "format_datetime local_seconds =
     (case civil_from_days (local_seconds div 86400) of
        (y, m, d) \<Rightarrow>
          (let sod = local_seconds mod 86400
           in show_int y @ ''-'' @ pad2 m @ ''-'' @ pad2 d @ '' '' @
              pad2 (sod div 3600) @ '':'' @ pad2 (sod mod 3600 div 60) @ '':'' @ pad2 (sod mod 60)))"

text \<open>\<open>datetime.datetime.fromtimestamp(t).strftime(...)\<close> for whole seconds \<open>t\<close>; the
  local time zone is the parameter \<open>utc_offset\<close>, the offset in seconds that applies at
  \<open>t\<close>.\<close>

definition fromtimestamp_strftime :: "(int \<Rightarrow> int) \<Rightarrow> int \<Rightarrow> py_exception + string" where
  "fromtimestamp_strftime utc_offset t =
     (let local_seconds = t + utc_offset t
      in case civil_from_days (local_seconds div 86400) of
           (y, m, d) \<Rightarrow>
             if 1 \<le> y \<and> y \<le> 9999 then Inr (format_datetime local_seconds) else Inl ValueError)"

text \<open>\<open>epoch_ms_to_str\<close>. Above \<open>10 ** 12\<close> the value is divided by \<open>1000.0\<close>; the formatted
  time only shows whole seconds, which are the integer quotient. In the handler \<open>ms\<close> is
  the integer if the conversion succeeded and the argument otherwise.\<close>

definition epoch_ms_to_str :: "(int \<Rightarrow> int) \<Rightarrow> string \<Rightarrow> string" where
  "epoch_ms_to_str utc_offset ms =
     (case py_int ms of
        Inl e \<Rightarrow> ms
      | Inr n \<Rightarrow>
          (case fromtimestamp_strftime utc_offset (if n > 10 ^ 12 then n div 1000 else n) of
             Inl e \<Rightarrow> show_int n
           | Inr text \<Rightarrow> text))"

section \<open>Multi-strategy parser\<close>

text \<open>A parsed record is a Python dictionary with string keys and string values, kept as
  the list of its items in insertion order.\<close>

type_synonym py_dict = "(string \<times> string) list"

fun py_join :: "string \<Rightarrow> string list \<Rightarrow> string" where
  "py_join sep [] = []"
| "py_join sep [x] = x"
| "py_join sep (x # y # ys) = x @ sep @ py_join sep (y # ys)"

definition safe_strip :: "string option \<Rightarrow> string" where
  "safe_strip v = (case v of None \<Rightarrow> [] | Some s \<Rightarrow> py_strip s)"

definition safe_group :: "match \<Rightarrow> string \<Rightarrow> string \<Rightarrow> string" where
  "safe_group m group_name dflt =
     (case match_group m group_name of
        Inl e \<Rightarrow> dflt
      | Inr None \<Rightarrow> dflt
      | Inr (Some v) \<Rightarrow> safe_strip (Some v))"

text \<open>The text the SMS and call parsers work on: the lines of the input that do not start
  with \<open>#\<close>, joined by line feeds.\<close>

definition strip_comment_lines :: "string \<Rightarrow> string" where
  "strip_comment_lines raw_text =
     py_join [CHR 0x0A] (filter (\<lambda>line. \<not> startswith line ''#'') (splitlines raw_text))"

definition date_text :: "(int \<Rightarrow> int) \<Rightarrow> string \<Rightarrow> string" where
  "date_text utc_offset date_ms =
     (if date_ms \<noteq> [] then epoch_ms_to_str utc_offset date_ms else ''Unknown'')"

definition sms_record :: "(int \<Rightarrow> int) \<Rightarrow> string \<Rightarrow> string \<Rightarrow> string \<Rightarrow> py_dict" where
  "sms_record utc_offset addr date_ms body =
     [(''address'', addr), (''date_epoch_ms'', date_ms),
      (''date'', date_text utc_offset date_ms), (''body'', body)]"

text \<open>Strategy 1 of the SMS parser:
  \<^verbatim>\<open>address=(?P<address>.*?),\s*date=(?P<date>\d+),\s*body=(?P<body>.*?)(?=(?:\nRow)|\Z)\<close>
  with \<open>re.DOTALL\<close>.\<close>

definition sms_row_re :: regex where
  "sms_row_re =
     cat [Lit ''address='', Group ''address'' (Rep re_any 0 False), Lit '','', Rep re_space 0 True,
          Lit ''date='', Group ''date'' (Rep re_digit 1 True), Lit '','', Rep re_space 0 True,
          Lit ''body='', Group ''body'' (Rep re_any 0 False),
          Lookahead (Alt (Lit (CHR 0x0A # ''Row'')) EndZ)]"

definition sms_strategy1 :: "(int \<Rightarrow> int) \<Rightarrow> string \<Rightarrow> py_dict list" where
  "sms_strategy1 utc_offset text =
     concat (map (\<lambda>m.
        let addr = safe_group m ''address'' [];
            date_ms = safe_group m ''date'' [];
            body = safe_group m ''body'' []
        in if addr \<noteq> [] \<or> body \<noteq> [] then [sms_record utc_offset addr date_ms body] else [])
       (re_finditer (Flags False True) sms_row_re text))"

text \<open>Strategy 2:
  \<^verbatim>\<open>address=(?P<addr>.*?),\s*date=(?P<date>\d+).*?body=(?P<body>.*?)(?:,\s*type=|$)\<close>
  searched in every line that contains the three field markers.\<close>

definition sms_line_re :: regex where
  "sms_line_re =
     cat [Lit ''address='', Group ''addr'' (Rep re_any 0 False), Lit '','', Rep re_space 0 True,
          Lit ''date='', Group ''date'' (Rep re_digit 1 True), Rep re_any 0 False,
          Lit ''body='', Group ''body'' (Rep re_any 0 False),
          Alt (cat [Lit '','', Rep re_space 0 True, Lit ''type='']) Dollar]"

definition sms_from_match :: "(int \<Rightarrow> int) \<Rightarrow> match \<Rightarrow> py_dict" where
  "sms_from_match utc_offset m =
     sms_record utc_offset (safe_group m ''addr'' []) (safe_group m ''date'' [])
       (safe_group m ''body'' [])"

definition sms_strategy2 :: "(int \<Rightarrow> int) \<Rightarrow> string \<Rightarrow> py_dict list" where
  "sms_strategy2 utc_offset text =
     concat (map (\<lambda>line.
        if py_in ''address='' line \<and> py_in ''date='' line \<and> py_in ''body='' line
        then (case re_search (Flags False True) sms_line_re line of
                None \<Rightarrow> []
              | Some m \<Rightarrow> [sms_from_match utc_offset m])
        else [])
       (splitlines text))"

text \<open>Strategy 3: the three patterns with other column names, each searched in every line;
  the first pattern that gives a record decides.
  \<^verbatim>\<open>phone_number=(?P<addr>.*?),\s*date=(?P<date>\d+).*?message=(?P<body>.*?)(?:,|$)\<close>,
  \<^verbatim>\<open>sender=(?P<addr>.*?),\s*timestamp=(?P<date>\d+).*?text=(?P<body>.*?)(?:,|$)\<close>,
  \<^verbatim>\<open>number=(?P<addr>.*?),\s*date_sent=(?P<date>\d+).*?body=(?P<body>.*?)(?:,|$)\<close>.\<close>

definition sms_alt_re :: "string \<Rightarrow> string \<Rightarrow> string \<Rightarrow> regex" where
  "sms_alt_re addr_key date_key body_key =
     cat [Lit (addr_key @ ''=''), Group ''addr'' (Rep re_any 0 False), Lit '','', Rep re_space 0 True,
          Lit (date_key @ ''=''), Group ''date'' (Rep re_digit 1 True), Rep re_any 0 False,
          Lit (body_key @ ''=''), Group ''body'' (Rep re_any 0 False),
          Alt (Lit '','') Dollar]"

definition sms_alt_patterns :: "regex list" where
  "sms_alt_patterns =
     [sms_alt_re ''phone_number'' ''date'' ''message'',
      sms_alt_re ''sender'' ''timestamp'' ''text'',
      sms_alt_re ''number'' ''date_sent'' ''body'']"

definition sms_search_lines :: "(int \<Rightarrow> int) \<Rightarrow> regex \<Rightarrow> string \<Rightarrow> py_dict list" where
  "sms_search_lines utc_offset pattern text =
     concat (map (\<lambda>line.
        case re_search (Flags False True) pattern line of
          None \<Rightarrow> []
        | Some m \<Rightarrow> [sms_from_match utc_offset m])
       (splitlines text))"

fun sms_strategy3 :: "(int \<Rightarrow> int) \<Rightarrow> regex list \<Rightarrow> string \<Rightarrow> py_dict list" where
  "sms_strategy3 utc_offset [] text = []"
| "sms_strategy3 utc_offset (pattern # rest) text =
     (let results = sms_search_lines utc_offset pattern text
      in if results \<noteq> [] then results else sms_strategy3 utc_offset rest text)"

text \<open>Strategy 4: \<^verbatim>\<open>re.findall(r'(\w+)=(.*?)(?:,\s*\w+=|$)', line)\<close> gives the pairs of a
  line; the dictionary built from them keeps the last value of a key; \<open>a or b or dflt\<close>
  is the first value that is present and not empty, and \<open>dflt\<close> when there is none.\<close>

definition key_value_re :: regex where
  "key_value_re =
     cat [Group ''1'' (Rep re_word 1 True), Lit ''='', Group ''2'' (Rep re_any 0 False),
          Alt (cat [Lit '','', Rep re_space 0 True, Rep re_word 1 True, Lit ''='']) Dollar]"

definition findall_pairs :: "flags \<Rightarrow> regex \<Rightarrow> string \<Rightarrow> (string \<times> string) list" where
  "findall_pairs f r s =
     map (\<lambda>m. (case map_of (snd m) ''1'' of None \<Rightarrow> [] | Some v \<Rightarrow> v,
               case map_of (snd m) ''2'' of None \<Rightarrow> [] | Some v \<Rightarrow> v))
       (re_finditer f r s)"

definition dict_get :: "(string \<times> string) list \<Rightarrow> string \<Rightarrow> string option" where
  "dict_get pairs key = map_of (rev pairs) key"

fun first_value :: "(string \<times> string) list \<Rightarrow> string list \<Rightarrow> string \<Rightarrow> string" where
  "first_value data [] dflt = dflt"
| "first_value data (key # keys) dflt =
     (case dict_get data key of
        Some v \<Rightarrow> if v \<noteq> [] then v else first_value data keys dflt
      | None \<Rightarrow> first_value data keys dflt)"

definition sms_strategy4 :: "(int \<Rightarrow> int) \<Rightarrow> string \<Rightarrow> py_dict list" where
  "sms_strategy4 utc_offset text =
     concat (map (\<lambda>line.
        if py_strip line = [] \<or> startswith line ''Row:'' then []
        else
          let pairs = findall_pairs (Flags False False) key_value_re line;
              data = map (\<lambda>(k, v). (k, py_strip v)) pairs;
              addr = first_value data [''address'', ''phone_number'', ''sender'', ''number''] [];
              body = first_value data [''body'', ''message'', ''text''] [];
              date_ms = first_value data [''date'', ''timestamp'', ''date_sent''] []
          in if addr \<noteq> [] \<or> body \<noteq> [] then [sms_record utc_offset addr date_ms body] else [])
       (splitlines text))"

text \<open>\<open>parse_sms_text\<close>. Every call that can raise sits inside a \<open>try\<close> of the source
  (\<open>safe_group\<close>, \<open>epoch_ms_to_str\<close>) or cannot raise on a string, so the function is
  total.\<close>

definition parse_sms_text :: "(int \<Rightarrow> int) \<Rightarrow> string \<Rightarrow> py_dict list" where
  "parse_sms_text utc_offset raw_text =
     (if raw_text = [] then []
      else
        let text = strip_comment_lines raw_text
        in if py_strip text = [] then []
           else if sms_strategy1 utc_offset text \<noteq> [] then sms_strategy1 utc_offset text
           else if sms_strategy2 utc_offset text \<noteq> [] then sms_strategy2 utc_offset text
           else if sms_strategy3 utc_offset sms_alt_patterns text \<noteq> []
                then sms_strategy3 utc_offset sms_alt_patterns text
           else sms_strategy4 utc_offset text)"

text \<open>\<open>parse_contacts_text\<close>: the one pattern
  \<^verbatim>\<open>Row:\s*\d+\s+display_name=(?P<name>.*?),\s*data1=(?P<number>[\+\d\s\(\)-]+)\<close>
  with \<open>re.IGNORECASE\<close>, run over the raw text as it is. \<open>match.group(...).strip()\<close>
  raises \<open>AttributeError\<close> when the group is \<open>None\<close>; the loop has no handler.\<close>

definition contacts_re :: regex where
  "contacts_re =
     cat [Lit ''Row:'', Rep re_space 0 True, Rep re_digit 1 True, Rep re_space 1 True,
          Lit ''display_name='', Group ''name'' (Rep re_any 0 False), Lit '','', Rep re_space 0 True,
          Lit ''data1='',
          Group ''number''
            (Rep (re_set [re_chr CHR ''+'', re_digit, re_space, re_chr CHR ''('', re_chr CHR '')'',
                          re_chr CHR ''-'']) 1 True)]"

definition group_strip :: "match \<Rightarrow> string \<Rightarrow> py_exception + string" where
  "group_strip m name =
     (case match_group m name of
        Inl e \<Rightarrow> Inl e
      | Inr None \<Rightarrow> Inl AttributeError
      | Inr (Some v) \<Rightarrow> Inr (py_strip v))"

fun contacts_loop :: "match list \<Rightarrow> py_dict list \<Rightarrow> py_exception + py_dict list" where
  "contacts_loop [] results = Inr results"
| "contacts_loop (m # ms) results =
     (case group_strip m ''name'' of
        Inl e \<Rightarrow> Inl e
      | Inr name \<Rightarrow>
          (case group_strip m ''number'' of
             Inl e \<Rightarrow> Inl e
           | Inr number \<Rightarrow>
               contacts_loop ms (results @ [[(''name'', name), (''number'', number)]])))"

definition parse_contacts_text :: "string \<Rightarrow> py_exception + py_dict list" where
  "parse_contacts_text raw_text =
     (if raw_text = [] then Inr []
      else contacts_loop (re_finditer (Flags True False) contacts_re raw_text) [])"

text \<open>\<open>parse_calls_text\<close>. Strategy 1:
  \<^verbatim>\<open>(?:name|cached_name)=(?P<name>.*?),\s*number=(?P<number>.*?),\s*duration=(?P<duration>\d+),\s*date=(?P<date>\d+)\<close>
  with \<open>re.IGNORECASE\<close>.\<close>

definition call_record ::
  "(int \<Rightarrow> int) \<Rightarrow> string \<Rightarrow> string \<Rightarrow> string \<Rightarrow> string \<Rightarrow> py_dict" where
  "call_record utc_offset name number duration date_ms =
     [(''name'', name), (''number'', number), (''duration_seconds'', duration),
      (''date_epoch_ms'', date_ms), (''date'', date_text utc_offset date_ms)]"

definition call_from_match :: "(int \<Rightarrow> int) \<Rightarrow> match \<Rightarrow> py_dict" where
  "call_from_match utc_offset m =
     call_record utc_offset (safe_group m ''name'' []) (safe_group m ''number'' [])
       (safe_group m ''duration'' []) (safe_group m ''date'' [])"

definition calls_fields_re :: "regex \<Rightarrow> string \<Rightarrow> string \<Rightarrow> string \<Rightarrow> regex" where
  "calls_fields_re name_key number_key duration_key date_key =
     cat [name_key, Lit ''='', Group ''name'' (Rep re_any 0 False), Lit '','', Rep re_space 0 True,
          Lit (number_key @ ''=''), Group ''number'' (Rep re_any 0 False), Lit '','',
          Rep re_space 0 True,
          Lit (duration_key @ ''=''), Group ''duration'' (Rep re_digit 1 True), Lit '','',
          Rep re_space 0 True,
          Lit (date_key @ ''=''), Group ''date'' (Rep re_digit 1 True)]"

definition calls_re :: regex where
  "calls_re = calls_fields_re (Alt (Lit ''name'') (Lit ''cached_name'')) ''number'' ''duration'' ''date''"

definition calls_finditer :: "(int \<Rightarrow> int) \<Rightarrow> regex \<Rightarrow> string \<Rightarrow> py_dict list" where
  "calls_finditer utc_offset pattern text =
     map (call_from_match utc_offset) (re_finditer (Flags True False) pattern text)"

text \<open>Strategy 2: in every line that contains \<open>duration=\<close> and \<open>date=\<close>, the four fields
  are searched one by one with
  \<^verbatim>\<open>(?:name|cached_name)=(.*?)(?:,|$)\<close>, \<^verbatim>\<open>number=(.*?)(?:,|$)\<close>,
  \<^verbatim>\<open>duration=(\d+)\<close> and \<^verbatim>\<open>date=(\d+)\<close>; an exception skips the line.\<close>

definition calls_name_re :: regex where
  "calls_name_re =
     cat [Alt (Lit ''name'') (Lit ''cached_name''), Lit ''='', Group ''1'' (Rep re_any 0 False),
          Alt (Lit '','') Dollar]"

definition calls_number_re :: regex where
  "calls_number_re =
     cat [Lit ''number='', Group ''1'' (Rep re_any 0 False), Alt (Lit '','') Dollar]"

definition calls_duration_re :: regex where
  "calls_duration_re = cat [Lit ''duration='', Group ''1'' (Rep re_digit 1 True)]"

definition calls_date_re :: regex where
  "calls_date_re = cat [Lit ''date='', Group ''1'' (Rep re_digit 1 True)]"

definition field_or :: "match option \<Rightarrow> string \<Rightarrow> py_exception + string" where
  "field_or found dflt =
     (case found of
        None \<Rightarrow> Inr dflt
      | Some m \<Rightarrow> (case match_group m ''1'' of Inl e \<Rightarrow> Inl e | Inr v \<Rightarrow> Inr (safe_strip v)))"

definition calls_line :: "(int \<Rightarrow> int) \<Rightarrow> string \<Rightarrow> py_exception + py_dict" where
  "calls_line utc_offset line =
     (case field_or (re_search (Flags True False) calls_name_re line) [] of
        Inl e \<Rightarrow> Inl e
      | Inr name \<Rightarrow>
     (case field_or (re_search (Flags True False) calls_number_re line) [] of
        Inl e \<Rightarrow> Inl e
      | Inr number \<Rightarrow>
     (case field_or (re_search (Flags True False) calls_duration_re line) ''0'' of
        Inl e \<Rightarrow> Inl e
      | Inr duration \<Rightarrow>
     (case field_or (re_search (Flags True False) calls_date_re line) [] of
        Inl e \<Rightarrow> Inl e
      | Inr date_ms \<Rightarrow> Inr (call_record utc_offset name number duration date_ms)))))"

definition calls_strategy2 :: "(int \<Rightarrow> int) \<Rightarrow> string \<Rightarrow> py_dict list" where
  "calls_strategy2 utc_offset text =
     concat (map (\<lambda>line.
        if py_in ''duration='' line \<and> py_in ''date='' line
        then (case calls_line utc_offset line of Inl e \<Rightarrow> [] | Inr r \<Rightarrow> [r])
        else [])
       (splitlines text))"

text \<open>Strategy 3: the two patterns with other column names,
  \<^verbatim>\<open>caller_name=(?P<name>.*?),\s*phone_number=(?P<number>.*?),\s*call_duration=(?P<duration>\d+),\s*timestamp=(?P<date>\d+)\<close>
  and
  \<^verbatim>\<open>contact=(?P<name>.*?),\s*number=(?P<number>.*?),\s*duration=(?P<duration>\d+),\s*time=(?P<date>\d+)\<close>;
  the first that gives a record decides.\<close>

definition calls_alt_patterns :: "regex list" where
  "calls_alt_patterns =
     [calls_fields_re (Lit ''caller_name'') ''phone_number'' ''call_duration'' ''timestamp'',
      calls_fields_re (Lit ''contact'') ''number'' ''duration'' ''time'']"

fun calls_strategy3 :: "(int \<Rightarrow> int) \<Rightarrow> regex list \<Rightarrow> string \<Rightarrow> py_dict list" where
  "calls_strategy3 utc_offset [] text = []"
| "calls_strategy3 utc_offset (pattern # rest) text =
     (let results = calls_finditer utc_offset pattern text
      in if results \<noteq> [] then results else calls_strategy3 utc_offset rest text)"

text \<open>Strategy 4: the key and value pairs of a line with the keys in lower case.\<close>

definition calls_strategy4 :: "(int \<Rightarrow> int) \<Rightarrow> string \<Rightarrow> py_dict list" where
  "calls_strategy4 utc_offset text =
     concat (map (\<lambda>line.
        if py_strip line = [] \<or> startswith line ''Row:'' then []
        else
          let pairs = findall_pairs (Flags False False) key_value_re line;
              data = map (\<lambda>(k, v). (py_lower k, py_strip v)) pairs;
              name = first_value data [''name'', ''cached_name'', ''caller_name'', ''contact''] [];
              number = first_value data [''number'', ''phone_number'', ''phone''] [];
              duration = first_value data [''duration'', ''call_duration''] ''0'';
              date_ms = first_value data [''date'', ''timestamp'', ''time''] []
          in if number \<noteq> [] \<or> name \<noteq> []
             then [call_record utc_offset name number duration date_ms] else [])
       (splitlines text))"

definition parse_calls_text :: "(int \<Rightarrow> int) \<Rightarrow> string \<Rightarrow> py_dict list" where
  "parse_calls_text utc_offset raw_text =
     (if raw_text = [] then []
      else
        let text = strip_comment_lines raw_text
        in if py_strip text = [] then []
           else if calls_finditer utc_offset calls_re text \<noteq> []
                then calls_finditer utc_offset calls_re text
           else if calls_strategy2 utc_offset text \<noteq> [] then calls_strategy2 utc_offset text
           else if calls_strategy3 utc_offset calls_alt_patterns text \<noteq> []
                then calls_strategy3 utc_offset calls_alt_patterns text
           else calls_strategy4 utc_offset text)"

text \<open>Sample inputs of the parsers: the two rows of the literal SMS scenario, dumps with a
  commented row, and the time zone UTC.\<close>

definition sms_literal_input :: string where
  "sms_literal_input =
     ''Row: 0 address=+15551234567, date=1700000000000, body=Hello there'' @ [CHR 0x0A] @
     ''Row: 1 address=+15559876543, date=1700000100000, body=See you soon''"

definition utc :: "int \<Rightarrow> int" where
  "utc t = 0"

definition contacts_dump :: string where
  "contacts_dump =
     ''# Device: acme phone'' @ [CHR 0x0A] @
     ''# Row: 9 display_name=Old Entry, data1=555 0000'' @ [CHR 0x0A] @
     ''Row: 0 display_name=Alice, data1=+1 555 1234''"

definition sms_dump :: string where
  "sms_dump =
     ''# Device: acme phone'' @ [CHR 0x0A] @
     ''# Row: 9 address=+15550000, date=1700000000000, body=Old message'' @ [CHR 0x0A] @
     ''Row: 0 address=+15551234567, date=1700000000000, body=Hello there''"

subsection \<open>Notions used to reason about the discovery loop\<close>

text \<open>What one pass of the \<open>for name in entries\<close> loop appends to \<open>discovered\<close> and to
  the stack.\<close>

definition entry_records :: "(string \<Rightarrow> bool) \<Rightarrow> string \<Rightarrow> string list \<Rightarrow> discovered_path list" where
  "entry_records isd cur names =
     concat (map (\<lambda>n. if isd (full_path cur n) then [\<lparr>path = full_path cur n, is_dir = True\<rparr>]
                       else if special_name n then []
                       else [\<lparr>path = full_path cur n, is_dir = False\<rparr>]) names)"

definition entry_pushes :: "(string \<Rightarrow> bool) \<Rightarrow> string \<Rightarrow> string list \<Rightarrow> string list" where
  "entry_pushes isd cur names = filter isd (map (full_path cur) names)"

text \<open>The characters of a path other than the separator; \<open>replace("//", "/")\<close> keeps them.\<close>

definition nonslash :: "string \<Rightarrow> string" where
  "nonslash s = filter (\<lambda>c. c \<noteq> CHR ''/'') s"

text \<open>The loop invariant, in four parts: where each record comes from; what has been
  recorded for each listed child of a visited path; how each path of the stack and of
  \<open>visited\<close> was reached; and that no record carries the start path.\<close>

definition inv_source ::
  "(string \<Rightarrow> string list) \<Rightarrow> (string \<Rightarrow> bool) \<Rightarrow> string set \<Rightarrow> discovered_path \<Rightarrow> bool" where
  "inv_source ls isd V e =
     (\<exists>cur\<in>V. \<exists>name\<in>set (ls cur). path e = full_path cur name \<and>
        (is_dir e \<longleftrightarrow> isd (path e)) \<and> (\<not> is_dir e \<longrightarrow> \<not> special_name name))"

definition inv_recorded ::
  "(string \<Rightarrow> bool) \<Rightarrow> string set \<Rightarrow> discovered_path set \<Rightarrow> string \<Rightarrow> string \<Rightarrow> bool" where
  "inv_recorded isd VS Dd cur name =
     ((isd (full_path cur name) \<longrightarrow>
         \<lparr>path = full_path cur name, is_dir = True\<rparr> \<in> Dd \<and> full_path cur name \<in> VS) \<and>
      (\<not> isd (full_path cur name) \<and> \<not> special_name name \<longrightarrow>
         \<lparr>path = full_path cur name, is_dir = False\<rparr> \<in> Dd))"

text \<open>The directory paths reachable from the start path: each is the full path of a listed
  child, tested as a directory, of a reachable path.\<close>

inductive reachable_dir ::
  "(string \<Rightarrow> string list) \<Rightarrow> (string \<Rightarrow> bool) \<Rightarrow> string \<Rightarrow> string \<Rightarrow> bool"
  for ls isd seed where
    start: "reachable_dir ls isd seed seed"
  | child: "reachable_dir ls isd seed cur \<Longrightarrow> name \<in> set (ls cur) \<Longrightarrow>
            isd (full_path cur name) \<Longrightarrow> reachable_dir ls isd seed (full_path cur name)"

definition inv_chain ::
  "(string \<Rightarrow> string list) \<Rightarrow> (string \<Rightarrow> bool) \<Rightarrow> string \<Rightarrow> discovered_path set \<Rightarrow> string \<Rightarrow> bool" where
  "inv_chain ls isd seed Dd v =
     ((v = seed \<or> (\<exists>e\<in>Dd. is_dir e \<and> path e = v)) \<and>
      length (nonslash seed) \<le> length (nonslash v) \<and> reachable_dir ls isd seed v)"

definition scan_inv ::
  "(string \<Rightarrow> string list) \<Rightarrow> (string \<Rightarrow> bool) \<Rightarrow> string \<Rightarrow>
   string list \<Rightarrow> string list \<Rightarrow> discovered_path list \<Rightarrow> bool" where
  "scan_inv ls isd seed stack visited discovered =
     ((\<forall>e\<in>set discovered. inv_source ls isd (set visited) e) \<and>
      (\<forall>cur\<in>set visited. \<forall>name\<in>set (ls cur).
          inv_recorded isd (set visited \<union> set stack) (set discovered) cur name) \<and>
      (\<forall>v\<in>set visited \<union> set stack. inv_chain ls isd seed (set discovered) v) \<and>
      (\<forall>e\<in>set discovered. path e \<noteq> seed))"

text \<open>Simulated devices. A directory whose single entry \<open>loop\<close> is a link back to the
  directory itself: every path below it lists \<open>loop\<close> again and tests as a directory.\<close>

definition link_loop_list :: "string \<Rightarrow> string list" where
  "link_loop_list p = [''loop'']"

definition link_loop_is_dir :: "string \<Rightarrow> bool" where
  "link_loop_is_dir p = True"

text \<open>A device on which every path lists the one entry \<open>/\<close> and tests as a directory:
  the full path of the entry of \<open>//\<close> is \<open>//\<close> itself.\<close>

definition slash_list :: "string \<Rightarrow> string list" where
  "slash_list p = [''/'']"

definition all_dirs :: "string \<Rightarrow> bool" where
  "all_dirs p = True"

text \<open>A device with a hidden file, a symlink-like listing line, an ordinary file, a hidden
  directory and an ordinary directory under \<open>/sdcard\<close>.\<close>

definition sample_list :: "string \<Rightarrow> string list" where
  "sample_list p =
     (if p = ''/sdcard''
      then [''.nomedia'', ''latest -> DCIM'', ''notes.txt'', ''.cache'', ''DCIM''] else [])"

definition sample_is_dir :: "string \<Rightarrow> bool" where
  "sample_is_dir p = (p = ''/sdcard/.cache'' \<or> p = ''/sdcard/DCIM'')"

section \<open>Verification\<close>

subsection \<open>Shell transport\<close>

text \<open>
  Claim C8, as stated, fails: when the process completes with both streams empty,
  \<open>run_adb\<close> returns the empty string, not a diagnostic.
\<close>

theorem run_adb_empty_streams:
  "run_adb silent_process decode_utf8_ascii [''shell'', ''true''] 60 () = ([], ())"
  by (simp add: run_adb_def silent_process_def run_adb_outcome_def decode_stream_def
        decode_utf8_ascii_def py_strip_def)

text \<open>
  Claim C8, amended. \<open>run_adb\<close> spawns one process with the command line \<open>adb\<close> followed
  by the arguments. If the process completes, the result is its decoded and stripped
  standard output if that is non-empty, and otherwise its decoded and stripped standard
  error, which may be empty. If the call times out, the tool is missing or another
  exception is raised, the result is the matching diagnostic: "adb command timed out.",
  "adb not found." or "adb error: " followed by the exception text. The result is empty
  exactly when the process completes and both streams are empty once decoded and stripped.
\<close>

theorem run_adb_result:
  assumes "subprocess_run (''adb'' # args) timeout w = (outcome, w')"
  shows "run_adb subprocess_run decoder args timeout w
           = (run_adb_outcome decoder outcome, w') \<and>
     (case outcome of
        Completed stdout stderr \<Rightarrow>
          run_adb_outcome decoder outcome =
            (if decode_stream decoder stdout \<noteq> [] then decode_stream decoder stdout
             else decode_stream decoder stderr)
      | TimeoutExpired \<Rightarrow> run_adb_outcome decoder outcome = ''adb command timed out.''
      | FileNotFoundError \<Rightarrow> run_adb_outcome decoder outcome = ''adb not found.''
      | OtherException e \<Rightarrow> run_adb_outcome decoder outcome = ''adb error: '' @ e) \<and>
     (run_adb_outcome decoder outcome = [] \<longleftrightarrow>
        (\<exists>stdout stderr. outcome = Completed stdout stderr \<and>
           decode_stream decoder stdout = [] \<and> decode_stream decoder stderr = []))"
  using assms
  by (cases outcome) (auto simp: run_adb_def run_adb_outcome_def Let_def)

text \<open>The amended claim at a process whose standard output is blank and whose standard
  error is not valid UTF-8: the result is the standard error, decoded as Latin-1 and
  stripped.\<close>

lemma stderr_process_call:
  "stderr_process (''adb'' # [''shell'', ''ls'']) 60 () =
     (Completed [0x20, 0x0A] [0x65, 0x72, 0x72, 0xE9, 0x0A], ())"
  by (simp add: stderr_process_def)

theorem run_adb_result_witness:
  "stderr_process (''adb'' # [''shell'', ''ls'']) 60 () =
     (Completed [0x20, 0x0A] [0x65, 0x72, 0x72, 0xE9, 0x0A], ()) \<and>
   run_adb stderr_process decode_utf8_ascii [''shell'', ''ls''] 60 () =
     ([CHR ''e'', CHR ''r'', CHR ''r'', CHR 0xE9], ())"
proof -
  have "run_adb_outcome decode_utf8_ascii (Completed [0x20, 0x0A] [0x65, 0x72, 0x72, 0xE9, 0x0A])
          = [CHR ''e'', CHR ''r'', CHR ''r'', CHR 0xE9]"
    by code_simp
  with run_adb_result [where subprocess_run = stderr_process and decoder = decode_utf8_ascii,
      OF stderr_process_call] stderr_process_call
  show ?thesis by simp
qed

subsection \<open>Query fallback engine\<close>

lemma logged_apply:
  "logged run args (calls, w) =
     (case run args w of (result, w') \<Rightarrow> (result, (calls @ [(args, result)], w')))"
  by (simp add: logged_def)

lemma try_projections_combos:
  "try_projections run uri ps w = try_combos run (map (Pair uri) ps) w"
  by (induction ps arbitrary: w) (auto split: prod.splits)

lemma try_combos_append:
  "try_combos run (a @ b) w =
     (case try_combos run a w of
        (Some r, w') \<Rightarrow> (Some r, w')
      | (None, w') \<Rightarrow> try_combos run b w')"
  by (induction a arbitrary: w) (auto split: prod.splits)

lemma query_combos:
  "query_content_provider_with_fallbacks run us ps label w =
     (case try_combos run (List.product us ps) w of
        (Some r, w') \<Rightarrow> (r, w')
      | (None, w') \<Rightarrow> ((False, ''All '' @ label @ '' query attempts failed.'', None, None), w'))"
  by (induction us arbitrary: w)
     (auto simp: try_combos_append try_projections_combos split: prod.splits option.splits)

text \<open>What the calls holds after the loop over a list of combinations: the calls made are
  those of a prefix of the list, every call but the last was classified as a failure, and
  the loop stops with a result exactly when the last call was classified as a success.\<close>

lemma try_combos_logged:
  "try_combos (logged run) cs (calls0, w) = (ro, (calls, w')) \<Longrightarrow>
   \<exists>new. calls = calls0 @ new \<and> length new \<le> length cs \<and>
     map fst new = map query_args (take (length new) cs) \<and>
     (\<forall>e \<in> set (butlast new). \<not> indicates_success (snd e)) \<and>
     (case ro of
        None \<Rightarrow> length new = length cs \<and> (\<forall>e \<in> set new. \<not> indicates_success (snd e))
      | Some r \<Rightarrow> new \<noteq> [] \<and> indicates_success (snd (last new)) \<and>
          r = (True, snd (last new), Some (fst (cs ! (length new - 1))),
                 Some (snd (cs ! (length new - 1)))))"
proof (induction cs arbitrary: calls0 w)
  case Nil
  then show ?case by auto
next
  case (Cons c cs)
  obtain result w1 where r: "run (query_args c) w = (result, w1)"
    by (cases "run (query_args c) w")
  show ?case
  proof (cases "indicates_success result")
    case True
    with Cons.prems r have "ro = Some (True, result, Some (fst c), Some (snd c))"
      and "calls = calls0 @ [(query_args c, result)]"
      by (auto simp: logged_apply)
    then show ?thesis using True by (intro exI[of _ "[(query_args c, result)]"]) auto
  next
    case False
    with Cons.prems r
    have "try_combos (logged run) cs (calls0 @ [(query_args c, result)], w1) = (ro, (calls, w'))"
      by (auto simp: logged_apply)
    from Cons.IH[OF this] obtain new where n:
      "calls = (calls0 @ [(query_args c, result)]) @ new" "length new \<le> length cs"
      "map fst new = map query_args (take (length new) cs)"
      "\<forall>e \<in> set (butlast new). \<not> indicates_success (snd e)"
      "case ro of
        None \<Rightarrow> length new = length cs \<and> (\<forall>e \<in> set new. \<not> indicates_success (snd e))
      | Some r \<Rightarrow> new \<noteq> [] \<and> indicates_success (snd (last new)) \<and>
          r = (True, snd (last new), Some (fst (cs ! (length new - 1))),
                 Some (snd (cs ! (length new - 1))))"
      by blast
    show ?thesis
      using n False
      by (intro exI[of _ "(query_args c, result) # new"])
         (auto split: option.splits simp: nth_Cons' dest: in_set_butlastD)
  qed
qed

text \<open>
  Claim C1. Run on a transport that logs its calls, \<open>query_content_provider_with_fallbacks\<close>
  makes its calls for a prefix of the combinations in the order URI-major,
  projection-minor (the order of \<open>List.product\<close>), one call per combination. Every call
  before the last was classified as a failure. If the result says success, the last call
  made is the first whose answer is non-empty and free of the error markers; the result
  carries that answer as raw text and exactly that combination as \<open>uri_used\<close> and
  \<open>projection_used\<close>, and no further call was made. Otherwise every combination was
  tried, all failed, and the result is the "All ... query attempts failed." message.
\<close>

theorem query_fallback_order:
  assumes "query_content_provider_with_fallbacks (logged run) us ps label ([], w)
             = ((ok, raw, uri_used, projection_used), (calls, w'))"
  shows "length calls \<le> length (List.product us ps) \<and>
     map fst calls = map query_args (take (length calls) (List.product us ps)) \<and>
     (\<forall>e \<in> set (butlast calls). \<not> indicates_success (snd e)) \<and>
     (if ok
      then calls \<noteq> [] \<and> indicates_success (snd (last calls)) \<and> raw = snd (last calls) \<and>
           uri_used = Some (fst (List.product us ps ! (length calls - 1))) \<and>
           projection_used = Some (snd (List.product us ps ! (length calls - 1)))
      else length calls = length (List.product us ps) \<and>
           (\<forall>e \<in> set calls. \<not> indicates_success (snd e)) \<and>
           raw = ''All '' @ label @ '' query attempts failed.'' \<and>
           uri_used = None \<and> projection_used = None)"
proof -
  obtain ro where t: "try_combos (logged run) (List.product us ps) ([], w) = (ro, (calls, w'))"
    and r: "(ok, raw, uri_used, projection_used) =
       (case ro of Some r \<Rightarrow> r
        | None \<Rightarrow> (False, ''All '' @ label @ '' query attempts failed.'', None, None))"
    using assms unfolding query_combos by (auto split: prod.splits option.splits)
  from try_combos_logged[OF t] r show ?thesis
    by (cases ro) auto
qed

lemma stub_answers:
  "indicates_success ''Row: 0 address=5551234, date=1700000000000, body=Hi''"
  "\<not> indicates_success ''Error: permission denied''"
  by (simp_all add: indicates_success_def error_markers_def py_lower_def lower_char_def)

lemma stub_run:
  "query_content_provider_with_fallbacks (logged stub_transport)
       [''content://sms/'', ''content://sms/inbox''] [''address:date:body'', ''address:date_sent:body'']
       ''SMS'' ([], ())
     = ((True, ''Row: 0 address=5551234, date=1700000000000, body=Hi'',
         Some ''content://sms/inbox'', Some ''address:date:body''),
        ([(query_args (''content://sms/'', ''address:date:body''), ''Error: permission denied''),
          (query_args (''content://sms/'', ''address:date_sent:body''), ''Error: permission denied''),
          (query_args (''content://sms/inbox'', ''address:date:body''),
             ''Row: 0 address=5551234, date=1700000000000, body=Hi'')], ()))"
  by (simp add: logged_apply stub_transport_def stub_answers query_args_def)

text \<open>The scenario of the claim: two URIs, two projections, a stub that fails both
  projections of the first URI and succeeds on the first projection of the second URI.
  Three calls are made, in that order, and the result names the third combination.\<close>

theorem query_fallback_order_witness:
  "query_content_provider_with_fallbacks (logged stub_transport)
       [''content://sms/'', ''content://sms/inbox''] [''address:date:body'', ''address:date_sent:body'']
       ''SMS'' ([], ())
     = ((True, ''Row: 0 address=5551234, date=1700000000000, body=Hi'',
         Some ''content://sms/inbox'', Some ''address:date:body''),
        ([(query_args (''content://sms/'', ''address:date:body''), ''Error: permission denied''),
          (query_args (''content://sms/'', ''address:date_sent:body''), ''Error: permission denied''),
          (query_args (''content://sms/inbox'', ''address:date:body''),
             ''Row: 0 address=5551234, date=1700000000000, body=Hi'')], ()))
   \<and> List.product [''content://sms/'', ''content://sms/inbox'']
         [''address:date:body'', ''address:date_sent:body''] ! (3 - 1)
       = (''content://sms/inbox'', ''address:date:body'')"
  using query_fallback_order [OF stub_run] stub_run by simp

subsection \<open>Filesystem discovery engine\<close>

lemma fold_scan_entry:
  "fold (scan_entry isd cur) names (d, s) =
     (d @ entry_records isd cur names, s @ entry_pushes isd cur names)"
  by (induction names arbitrary: d s)
     (simp_all add: scan_entry_def entry_records_def entry_pushes_def Let_def)

lemma set_entry_pushes:
  "set (entry_pushes isd cur names) = {full_path cur n | n. n \<in> set names \<and> isd (full_path cur n)}"
  by (auto simp: entry_pushes_def)

lemma set_entry_records:
  "set (entry_records isd cur names) =
     {\<lparr>path = full_path cur n, is_dir = True\<rparr> | n. n \<in> set names \<and> isd (full_path cur n)} \<union>
     {\<lparr>path = full_path cur n, is_dir = False\<rparr> | n.
        n \<in> set names \<and> \<not> isd (full_path cur n) \<and> \<not> special_name n}"
  by (auto simp: entry_records_def split: if_splits)

lemma scan_loop_Nil: "scan_loop ls isd [] visited discovered = Some (visited, discovered)"
  by (subst scan_loop.simps) simp

lemma scan_loop_snoc:
  "scan_loop ls isd (xs @ [x]) visited discovered =
     (if x \<in> set visited then scan_loop ls isd xs visited discovered
      else if ls x = [] then scan_loop ls isd xs (visited @ [x]) discovered
      else scan_loop ls isd (xs @ entry_pushes isd x (ls x)) (visited @ [x])
             (discovered @ entry_records isd x (ls x)))"
  by (subst scan_loop.simps) (simp add: fold_scan_entry Let_def)

lemma scan_loop_terminates:
  assumes "finite D"
    and closed: "\<forall>cur\<in>D. \<forall>name\<in>set (ls cur). isd (full_path cur name) \<longrightarrow> full_path cur name \<in> D"
    and "set stack \<subseteq> D" and "distinct visited"
  shows "\<exists>v d. scan_loop ls isd stack visited discovered = Some (v, d) \<and> distinct v"
  using assms(3,4)
proof (induction "card (D - set visited)" arbitrary: stack visited discovered rule: less_induct)
  case less
  from less.prems(1) show ?case
  proof (induction stack arbitrary: discovered rule: rev_induct)
    case Nil
    show ?case using less.prems(2) by (simp add: scan_loop_Nil)
  next
    case (snoc x xs)
    have sub1: "set xs \<subseteq> D" using snoc.prems by simp
    show ?case
    proof (cases "x \<in> set visited")
      case True
      then show ?thesis using snoc.IH[OF sub1] by (simp add: scan_loop_snoc)
    next
      case False
      have xD: "x \<in> D" using snoc.prems by simp
      have less': "card (D - set (visited @ [x])) < card (D - set visited)"
      proof -
        have "D - set (visited @ [x]) \<subset> D - set visited" using xD False by auto
        then show ?thesis using assms(1) by (intro psubset_card_mono) auto
      qed
      have dist: "distinct (visited @ [x])" using less.prems(2) False by simp
      have sub2: "set (xs @ entry_pushes isd x (ls x)) \<subseteq> D"
        using sub1 closed xD by (auto simp: set_entry_pushes)
      show ?thesis
        using False less.hyps[OF less' sub1 dist] less.hyps[OF less' sub2 dist]
        by (simp add: scan_loop_snoc)
    qed
  qed
qed

lemma nonslash_replace: "nonslash (replace_double_slash s) = nonslash s"
  by (induction s rule: replace_double_slash.induct) (auto simp: nonslash_def)

lemma replace_nonempty: "s \<noteq> [] \<Longrightarrow> replace_double_slash s \<noteq> []"
  by (induction s rule: replace_double_slash.induct) auto

lemma replace_last_slash:
  "s \<noteq> [] \<Longrightarrow> last s = CHR ''/'' \<Longrightarrow> last (replace_double_slash s) = CHR ''/''"
  by (induction s rule: replace_double_slash.induct) (auto simp: replace_nonempty split: if_splits)

lemma rstrip_seed: "rstrip_chars ''/'' root = [] \<or> last (rstrip_chars ''/'' root) \<noteq> CHR ''/''"
proof -
  have "dropWhile P xs = [] \<or> \<not> P (hd (dropWhile P xs))" for P and xs :: string
    by (metis hd_dropWhile)
  from this[of "\<lambda>c. c \<in> set ''/''" "rev root"] show ?thesis
    by (auto simp: rstrip_chars_def last_rev)
qed

lemma full_path_neq_seed:
  assumes "seed = [] \<or> last seed \<noteq> CHR ''/''"
    and "length (nonslash seed) \<le> length (nonslash cur)"
  shows "full_path cur name \<noteq> seed"
proof (cases "nonslash name")
  case Nil
  then have "set name \<subseteq> {CHR ''/''}" by (auto simp: nonslash_def filter_empty_conv)
  then have "last (cur @ ''/'' @ name) = CHR ''/''"
    by (cases name rule: rev_cases) auto
  then have "last (full_path cur name) = CHR ''/''" "full_path cur name \<noteq> []"
    by (simp_all add: full_path_def replace_last_slash replace_nonempty)
  then show ?thesis using assms(1) by auto
next
  case (Cons c cs)
  have "nonslash (full_path cur name) = nonslash cur @ nonslash name"
    by (simp add: full_path_def nonslash_replace) (simp add: nonslash_def)
  then have "length (nonslash (full_path cur name)) > length (nonslash seed)"
    using assms(2) Cons by simp
  then show ?thesis by auto
qed

lemma nonslash_full_path_le: "length (nonslash cur) \<le> length (nonslash (full_path cur name))"
  by (simp add: full_path_def nonslash_replace) (simp add: nonslash_def)

lemma inv_source_mono: "inv_source ls isd V e \<Longrightarrow> V \<subseteq> V' \<Longrightarrow> inv_source ls isd V' e"
  unfolding inv_source_def by blast

lemma inv_recorded_mono:
  "inv_recorded isd VS Dd cur name \<Longrightarrow> VS \<subseteq> VS' \<Longrightarrow> Dd \<subseteq> Dd' \<Longrightarrow>
   inv_recorded isd VS' Dd' cur name"
  unfolding inv_recorded_def by blast

lemma inv_chain_mono: "inv_chain ls isd seed Dd v \<Longrightarrow> Dd \<subseteq> Dd' \<Longrightarrow> inv_chain ls isd seed Dd' v"
  unfolding inv_chain_def by blast

lemma scan_inv_skip:
  assumes "scan_inv ls isd seed (xs @ [x]) visited discovered" and "x \<in> set visited"
  shows "scan_inv ls isd seed xs visited discovered"
proof -
  have eq: "set visited \<union> set (xs @ [x]) = set visited \<union> set xs"
    using assms(2) by auto
  show ?thesis using assms(1) unfolding scan_inv_def eq by simp
qed

lemma scan_inv_entries:
  assumes inv: "scan_inv ls isd seed (xs @ [x]) visited discovered"
    and seed: "seed = [] \<or> last seed \<noteq> CHR ''/''"
  shows "scan_inv ls isd seed (xs @ entry_pushes isd x (ls x)) (visited @ [x])
           (discovered @ entry_records isd x (ls x))"
proof -
  let ?recs = "entry_records isd x (ls x)" and ?push = "entry_pushes isd x (ls x)"
  have i1: "\<forall>e\<in>set discovered. inv_source ls isd (set visited) e"
    and i2: "\<forall>cur\<in>set visited. \<forall>name\<in>set (ls cur).
          inv_recorded isd (set visited \<union> set (xs @ [x])) (set discovered) cur name"
    and i3: "\<forall>v\<in>set visited \<union> set (xs @ [x]). inv_chain ls isd seed (set discovered) v"
    and i4: "\<forall>e\<in>set discovered. path e \<noteq> seed"
    using inv unfolding scan_inv_def by blast+
  have xle: "length (nonslash seed) \<le> length (nonslash x)"
    using i3 unfolding inv_chain_def by simp
  have neq: "full_path x n \<noteq> seed" for n
    by (rule full_path_neq_seed[OF seed xle])
  have le: "length (nonslash seed) \<le> length (nonslash (full_path x n))" for n
    using xle nonslash_full_path_le[of x n] by simp
  have c1: "inv_source ls isd (set (visited @ [x])) e"
    if "e \<in> set (discovered @ ?recs)" for e
  proof (cases "e \<in> set discovered")
    case True
    then have "inv_source ls isd (set visited) e" using i1 by blast
    then show ?thesis by (rule inv_source_mono) auto
  next
    case False
    then have "e \<in> set ?recs" using that by simp
    then show ?thesis
      by (auto simp: set_entry_records inv_source_def)
  qed
  have c2: "inv_recorded isd (set (visited @ [x]) \<union> set (xs @ ?push))
              (set (discovered @ ?recs)) cur name"
    if "cur \<in> set (visited @ [x])" "name \<in> set (ls cur)" for cur name
  proof (cases "cur \<in> set visited")
    case True
    then have "inv_recorded isd (set visited \<union> set (xs @ [x])) (set discovered) cur name"
      using i2 that(2) by blast
    then show ?thesis by (rule inv_recorded_mono) auto
  next
    case False
    then have "cur = x" using that(1) by simp
    then show ?thesis using that(2)
      by (auto simp: inv_recorded_def set_entry_records set_entry_pushes)
  qed
  have c3: "inv_chain ls isd seed (set (discovered @ ?recs)) v"
    if "v \<in> set (visited @ [x]) \<union> set (xs @ ?push)" for v
  proof (cases "v \<in> set visited \<union> set (xs @ [x])")
    case True
    then have "inv_chain ls isd seed (set discovered) v" using i3 by blast
    then show ?thesis by (rule inv_chain_mono) auto
  next
    case False
    then have "v \<in> set ?push" using that by auto
    then obtain n where n: "v = full_path x n" "n \<in> set (ls x)" "isd (full_path x n)"
      unfolding set_entry_pushes by blast
    then have "\<lparr>path = v, is_dir = True\<rparr> \<in> set ?recs"
      unfolding set_entry_records by blast
    then have "\<exists>e\<in>set (discovered @ ?recs). is_dir e \<and> path e = v"
      by (intro bexI[of _ "\<lparr>path = v, is_dir = True\<rparr>"]) auto
    moreover have "reachable_dir ls isd seed x" using i3 unfolding inv_chain_def by simp
    then have "reachable_dir ls isd seed v" using n by (auto intro: reachable_dir.child)
    ultimately show ?thesis unfolding inv_chain_def using le[of n] n(1) by simp
  qed
  have c4: "path e \<noteq> seed" if "e \<in> set (discovered @ ?recs)" for e
  proof (cases "e \<in> set discovered")
    case True
    then show ?thesis using i4 by blast
  next
    case False
    then have "e \<in> set ?recs" using that by simp
    then obtain n where "path e = full_path x n" by (auto simp: set_entry_records)
    then show ?thesis using neq[of n] by simp
  qed
  show ?thesis unfolding scan_inv_def using c1 c2 c3 c4 by blast
qed

lemma entries_empty: "entry_pushes isd x [] = []" "entry_records isd x [] = []"
  by (simp_all add: entry_pushes_def entry_records_def)

lemma scan_inv_empty:
  assumes "scan_inv ls isd seed (xs @ [x]) visited discovered"
    and "seed = [] \<or> last seed \<noteq> CHR ''/''" and "ls x = []"
  shows "scan_inv ls isd seed xs (visited @ [x]) discovered"
  using scan_inv_entries[OF assms(1,2)] assms(3) by (simp add: entries_empty)

lemma scan_loop_inv:
  assumes run: "scan_loop ls isd stack visited discovered = Some y"
    and inv: "scan_inv ls isd seed stack visited discovered"
    and seed: "seed = [] \<or> last seed \<noteq> CHR ''/''"
  shows "scan_inv ls isd seed [] (fst y) (snd y)"
proof -
  have "scan_inv ls isd seed stack visited discovered \<longrightarrow> scan_inv ls isd seed [] (fst y) (snd y)"
  proof (rule scan_loop.raw_induct[where P = "\<lambda>ls isd stack visited discovered y.
       scan_inv ls isd seed stack visited discovered \<longrightarrow> scan_inv ls isd seed [] (fst y) (snd y)",
       OF _ run])
    fix f :: "(string \<Rightarrow> string list) \<Rightarrow> (string \<Rightarrow> bool) \<Rightarrow> string list \<Rightarrow> string list \<Rightarrow> discovered_path list \<Rightarrow> (string list \<times> discovered_path list) option"
    and ls isd stack visited discovered y
    assume IH: "\<And>ls isd stack visited discovered y. f ls isd stack visited discovered = Some y \<Longrightarrow>
       scan_inv ls isd seed stack visited discovered \<longrightarrow> scan_inv ls isd seed [] (fst y) (snd y)"
    assume body: "(if stack = [] then Some (visited, discovered)
      else
        let current = last stack; stack1 = butlast stack
        in if current \<in> set visited
           then f ls isd stack1 visited discovered
           else
             let visited1 = visited @ [current];
                 entries = ls current
             in if entries = []
                then f ls isd stack1 visited1 discovered
                else (case fold (scan_entry isd current) entries (discovered, stack1) of
                        (discovered1, stack2) \<Rightarrow>
                          f ls isd stack2 visited1 discovered1)) = Some y"
    show "scan_inv ls isd seed stack visited discovered \<longrightarrow> scan_inv ls isd seed [] (fst y) (snd y)"
    proof (cases stack rule: rev_cases)
      case Nil
      then show ?thesis using body by auto
    next
      case (snoc xs x)
      show ?thesis
      proof (cases "x \<in> set visited")
        case True
        then have "f ls isd xs visited discovered = Some y" using body snoc by simp
        from IH[OF this] show ?thesis
          unfolding snoc using scan_inv_skip[OF _ True] by blast
      next
        case False
        show ?thesis
        proof (cases "ls x = []")
          case True
          then have "f ls isd xs (visited @ [x]) discovered = Some y"
            using body snoc False by simp
          from IH[OF this] show ?thesis
            unfolding snoc using scan_inv_empty[where ls = ls and x = x, OF _ seed True] by blast
        next
          case ne: False
          then have "f ls isd (xs @ entry_pushes isd x (ls x)) (visited @ [x])
             (discovered @ entry_records isd x (ls x)) = Some y"
            using body snoc False by (simp add: fold_scan_entry Let_def)
          from IH[OF this] show ?thesis
            unfolding snoc using scan_inv_entries[OF _ seed] by blast
        qed
      qed
    qed
  qed
  then show ?thesis using inv by simp
qed

lemma scan_inv_init: "scan_inv ls isd seed [seed] [] []"
  by (simp add: scan_inv_def inv_chain_def reachable_dir.start)

text \<open>On the link loop the stack always holds one path, longer than every visited one, so
  the loop never returns.\<close>

lemma link_loop_diverges_aux:
  assumes run: "scan_loop ls isd stack visited discovered = Some y"
  shows "\<not> (ls = link_loop_list \<and> isd = link_loop_is_dir \<and>
           (\<exists>p. stack = [p] \<and> (\<forall>v\<in>set visited. length (nonslash v) < length (nonslash p))))"
proof (rule scan_loop.raw_induct[where P = "\<lambda>ls isd stack visited discovered y.
     \<not> (ls = link_loop_list \<and> isd = link_loop_is_dir \<and>
           (\<exists>p. stack = [p] \<and> (\<forall>v\<in>set visited. length (nonslash v) < length (nonslash p))))",
     OF _ run])
  fix f :: "(string \<Rightarrow> string list) \<Rightarrow> (string \<Rightarrow> bool) \<Rightarrow> string list \<Rightarrow> string list \<Rightarrow> discovered_path list \<Rightarrow> (string list \<times> discovered_path list) option"
    and ls isd stack visited discovered y
  assume IH: "\<And>ls isd stack visited discovered y. f ls isd stack visited discovered = Some y \<Longrightarrow>
     \<not> (ls = link_loop_list \<and> isd = link_loop_is_dir \<and>
           (\<exists>p. stack = [p] \<and> (\<forall>v\<in>set visited. length (nonslash v) < length (nonslash p))))"
  assume body: "(if stack = [] then Some (visited, discovered)
      else
        let current = last stack; stack1 = butlast stack
        in if current \<in> set visited
           then f ls isd stack1 visited discovered
           else
             let visited1 = visited @ [current];
                 entries = ls current
             in if entries = []
                then f ls isd stack1 visited1 discovered
                else (case fold (scan_entry isd current) entries (discovered, stack1) of
                        (discovered1, stack2) \<Rightarrow>
                          f ls isd stack2 visited1 discovered1)) = Some y"
  show "\<not> (ls = link_loop_list \<and> isd = link_loop_is_dir \<and>
           (\<exists>p. stack = [p] \<and> (\<forall>v\<in>set visited. length (nonslash v) < length (nonslash p))))"
  proof
    assume a: "ls = link_loop_list \<and> isd = link_loop_is_dir \<and>
           (\<exists>p. stack = [p] \<and> (\<forall>v\<in>set visited. length (nonslash v) < length (nonslash p)))"
    then obtain p where p: "stack = [p]" "\<forall>v\<in>set visited. length (nonslash v) < length (nonslash p)"
      by blast
    have notin: "p \<notin> set visited" using p(2) by auto
    have "f ls isd [full_path p ''loop''] (visited @ [p])
            (discovered @ [\<lparr>path = full_path p ''loop'', is_dir = True\<rparr>]) = Some y"
      using body a p notin
      by (simp add: link_loop_list_def link_loop_is_dir_def scan_entry_def special_name_def Let_def)
    from IH[OF this]
    have "\<not> (\<forall>v\<in>set (visited @ [p]).
              length (nonslash v) < length (nonslash (full_path p ''loop'')))"
      using a by simp
    moreover have "nonslash (full_path p ''loop'') = nonslash p @ ''loop''"
      by (simp add: full_path_def nonslash_replace) (simp add: nonslash_def)
    ultimately show False using p(2) by auto
  qed
qed

text \<open>
  Claim C2, as stated, fails: on the simulated directory whose entry \<open>loop\<close> links back to
  the directory, \<open>brute_scan_fs\<close> does not terminate. The visited set holds path strings,
  and the paths \<open>/sdcard/loop\<close>, \<open>/sdcard/loop/loop\<close>, ... are all different.
\<close>

theorem link_loop_diverges: "brute_scan_fs link_loop_list link_loop_is_dir ''/sdcard'' = None"
proof (cases "scan_loop link_loop_list link_loop_is_dir [''/sdcard''] [] []")
  case None
  then show ?thesis by (simp add: brute_scan_fs_def rstrip_chars_def)
next
  case (Some y)
  from link_loop_diverges_aux[OF Some] show ?thesis by simp
qed

text \<open>
  Claim C2, amended. If the directory paths that the oracles expose from the start path
  lie in a finite set \<open>D\<close> (it holds the start path and, with a path, the full path of each
  of its listed children that tests as a directory), then \<open>brute_scan_fs\<close> terminates, and
  no path is added to the visited set more than once. Entries whose full path is a path
  already visited are allowed.
\<close>

theorem brute_scan_terminates:
  assumes "finite D" and "rstrip_chars ''/'' root \<in> D"
    and "\<forall>cur\<in>D. \<forall>name\<in>set (ls cur). isd (full_path cur name) \<longrightarrow> full_path cur name \<in> D"
  shows "\<exists>visited discovered.
           scan_loop ls isd [rstrip_chars ''/'' root] [] [] = Some (visited, discovered) \<and>
           distinct visited \<and> brute_scan_fs ls isd root = Some discovered"
proof -
  have "set [rstrip_chars ''/'' root] \<subseteq> D" using assms(2) by simp
  from scan_loop_terminates[OF assms(1) assms(3) this, of "[]" "[]"]
  show ?thesis by (auto simp: brute_scan_fs_def)
qed

text \<open>The amended claim at the device whose entry \<open>/\<close> of \<open>//\<close> refers to \<open>//\<close> itself.\<close>

theorem brute_scan_terminates_witness:
  "finite {[], ''/'', ''//''} \<and> rstrip_chars ''/'' ''/'' \<in> {[], ''/'', ''//''} \<and>
   list_all (\<lambda>cur. list_all (\<lambda>name. all_dirs (full_path cur name) \<and>
       full_path cur name \<in> {[], ''/'', ''//''}) (slash_list cur)) [[], ''/'', ''//''] \<and>
   (\<exists>visited discovered.
       scan_loop slash_list all_dirs [rstrip_chars ''/'' ''/''] [] [] = Some (visited, discovered) \<and>
       distinct visited \<and> brute_scan_fs slash_list all_dirs ''/'' = Some discovered)"
proof -
  have h1: "finite {[], ''/'', ''//''}" by simp
  have h2: "rstrip_chars ''/'' ''/'' \<in> {[], ''/'', ''//''}" by (simp add: rstrip_chars_def)
  have h3: "\<forall>cur\<in>{[], ''/'', ''//''}. \<forall>name\<in>set (slash_list cur).
       all_dirs (full_path cur name) \<longrightarrow> full_path cur name \<in> {[], ''/'', ''//''}"
    by (simp add: full_path_def slash_list_def)
  have h4: "list_all (\<lambda>cur. list_all (\<lambda>name. all_dirs (full_path cur name) \<and>
       full_path cur name \<in> {[], ''/'', ''//''}) (slash_list cur)) [[], ''/'', ''//'']"
    by (simp add: full_path_def slash_list_def all_dirs_def)
  from brute_scan_terminates[OF h1 h2 h3] h1 h2 h4 show ?thesis by blast
qed


text \<open>
  Claim C9, amended. Every listed child of a visited path that tests as a directory is
  recorded as a directory and traversed, whether its name is hidden or symlink-like or
  not. A listed child that does not test as a directory is recorded as a file leaf when its
  name is ordinary; every file leaf in the result comes from an ordinary name, so a hidden
  or symlink-like name never adds a file leaf.
\<close>

theorem special_entries_kept_only_as_directories:
  assumes "scan_loop ls isd [rstrip_chars ''/'' root] [] [] = Some (visited, discovered)"
  shows "(\<forall>cur\<in>set visited. \<forall>name\<in>set (ls cur).
            (isd (full_path cur name) \<longrightarrow>
               \<lparr>path = full_path cur name, is_dir = True\<rparr> \<in> set discovered \<and>
               full_path cur name \<in> set visited) \<and>
            (\<not> isd (full_path cur name) \<and> \<not> special_name name \<longrightarrow>
               \<lparr>path = full_path cur name, is_dir = False\<rparr> \<in> set discovered)) \<and>
         (\<forall>e\<in>set discovered. \<not> is_dir e \<longrightarrow>
            (\<exists>cur\<in>set visited. \<exists>name\<in>set (ls cur).
                path e = full_path cur name \<and> \<not> special_name name \<and> \<not> isd (path e)))"
proof -
  let ?seed = "rstrip_chars ''/'' root"
  have "scan_inv ls isd ?seed [] visited discovered"
    using scan_loop_inv[OF assms scan_inv_init rstrip_seed] by simp
  then have a: "\<forall>e\<in>set discovered. inv_source ls isd (set visited) e"
    and b: "\<forall>cur\<in>set visited. \<forall>name\<in>set (ls cur).
          inv_recorded isd (set visited) (set discovered) cur name"
    unfolding scan_inv_def by auto
  from b have 1: "\<forall>cur\<in>set visited. \<forall>name\<in>set (ls cur).
            (isd (full_path cur name) \<longrightarrow>
               \<lparr>path = full_path cur name, is_dir = True\<rparr> \<in> set discovered \<and>
               full_path cur name \<in> set visited) \<and>
            (\<not> isd (full_path cur name) \<and> \<not> special_name name \<longrightarrow>
               \<lparr>path = full_path cur name, is_dir = False\<rparr> \<in> set discovered)"
    unfolding inv_recorded_def by blast
  from a have 2: "\<forall>e\<in>set discovered. \<not> is_dir e \<longrightarrow>
            (\<exists>cur\<in>set visited. \<exists>name\<in>set (ls cur).
                path e = full_path cur name \<and> \<not> special_name name \<and> \<not> isd (path e))"
    unfolding inv_source_def by blast
  from 1 2 show ?thesis by blast
qed

lemma sample_scan:
  "scan_loop sample_list sample_is_dir [rstrip_chars ''/'' ''/sdcard/''] [] [] =
     Some ([''/sdcard'', ''/sdcard/DCIM'', ''/sdcard/.cache''],
           [\<lparr>path = ''/sdcard/notes.txt'', is_dir = False\<rparr>,
            \<lparr>path = ''/sdcard/.cache'', is_dir = True\<rparr>,
            \<lparr>path = ''/sdcard/DCIM'', is_dir = True\<rparr>])"
  by code_simp

text \<open>
  Claim C9, as stated, fails: the hidden file \<open>.nomedia\<close> and the line \<open>latest -> DCIM\<close> are
  listed and do not test as directories, and neither is recorded, while the ordinary file
  \<open>notes.txt\<close> is.
\<close>

theorem hidden_file_not_recorded:
  "brute_scan_fs sample_list sample_is_dir ''/sdcard/'' =
     Some [\<lparr>path = ''/sdcard/notes.txt'', is_dir = False\<rparr>,
           \<lparr>path = ''/sdcard/.cache'', is_dir = True\<rparr>,
           \<lparr>path = ''/sdcard/DCIM'', is_dir = True\<rparr>] \<and>
   ''.nomedia'' \<in> set (sample_list ''/sdcard'') \<and>
   \<not> sample_is_dir (full_path ''/sdcard'' ''.nomedia'') \<and>
   ''latest -> DCIM'' \<in> set (sample_list ''/sdcard'') \<and>
   \<not> sample_is_dir (full_path ''/sdcard'' ''latest -> DCIM'')"
  by (simp add: brute_scan_fs_def sample_scan sample_list_def sample_is_dir_def full_path_def)

text \<open>The amended claim C9 and claim C10 at the sample device.\<close>

theorem special_entries_kept_only_as_directories_witness:
  "scan_loop sample_list sample_is_dir [rstrip_chars ''/'' ''/sdcard/''] [] [] =
     Some ([''/sdcard'', ''/sdcard/DCIM'', ''/sdcard/.cache''],
           [\<lparr>path = ''/sdcard/notes.txt'', is_dir = False\<rparr>,
            \<lparr>path = ''/sdcard/.cache'', is_dir = True\<rparr>,
            \<lparr>path = ''/sdcard/DCIM'', is_dir = True\<rparr>]) \<and>
   list_all (\<lambda>e. is_dir e \<or>
        (\<exists>cur\<in>set [''/sdcard'', ''/sdcard/DCIM'', ''/sdcard/.cache''].
           \<exists>name\<in>set (sample_list cur).
              path e = full_path cur name \<and> \<not> special_name name \<and> \<not> sample_is_dir (path e)))
     [\<lparr>path = ''/sdcard/notes.txt'', is_dir = False\<rparr>,
      \<lparr>path = ''/sdcard/.cache'', is_dir = True\<rparr>,
      \<lparr>path = ''/sdcard/DCIM'', is_dir = True\<rparr>]"
  using special_entries_kept_only_as_directories [OF sample_scan] sample_scan
  unfolding list_all_iff by blast


subsection \<open>Archive serializer\<close>

lemma concat_read_chunks: "0 < n \<Longrightarrow> concat (read_chunks n bs) = bs"
proof (induction n bs rule: read_chunks.induct)
  case (1 n bs)
  show ?case
  proof (cases "bs = []")
    case True
    then show ?thesis by (subst read_chunks.simps) simp
  next
    case False
    with 1 show ?thesis by (subst read_chunks.simps) simp
  qed
qed









subsection \<open>Extraction and manifest builder\<close>

lemma compute_hashes_null:
  "compute_hashes env fs p = null_digests \<longleftrightarrow> (\<exists>e. open_rb fs p = Inl e)"
  by (cases "open_rb fs p") (auto simp: compute_hashes_def null_digests_def Let_def)

lemma extract_entry_props:
  assumes "extract_entry env dest_root remote fs = Inr (m, fs2)"
  shows "remote_path m = remote \<and>
     local_path m = os_path_join dest_root (lstrip_chars ''/'' remote) \<and>
     (\<exists>fs1. os_makedirs env (os_path_dirname (local_path m)) fs = Inr fs1 \<and>
            adb_pull env remote (local_path m) fs1 = (adb_result m, fs2)) \<and>
     (hashes m = null_digests \<longleftrightarrow>
        \<not> os_path_exists fs2 (local_path m) \<or> (\<exists>e. open_rb fs2 (local_path m) = Inl e)) \<and>
     (\<forall>bs. open_rb fs2 (local_path m) = Inr bs \<longrightarrow>
        size_bytes m = length bs \<and>
        hashes m = \<lparr>md5 = Some (md5_hex env bs), sha1 = Some (sha1_hex env bs),
                     sha256 = Some (sha256_hex env bs)\<rparr>)"
proof -
  let ?local = "os_path_join dest_root (lstrip_chars ''/'' remote)"
  from assms obtain fs1 out where
    mk: "os_makedirs env (os_path_dirname ?local) fs = Inr fs1"
    and pull: "adb_pull env remote ?local fs1 = (out, fs2)"
    and m: "m = \<lparr>remote_path = remote, local_path = ?local,
                 size_bytes = (if os_path_exists fs2 ?local then os_path_getsize fs2 ?local else 0),
                 mtime = (if os_path_exists fs2 ?local then os_path_getmtime fs2 ?local else (0, 0)),
                 hashes = (if os_path_exists fs2 ?local then compute_hashes env fs2 ?local
                           else null_digests),
                 adb_result = out\<rparr>"
    by (auto simp: extract_entry_def Let_def split: sum.splits prod.splits)
  have a: "remote_path m = remote" "local_path m = ?local" "adb_result m = out"
    using m by simp_all
  have h: "hashes m = null_digests \<longleftrightarrow>
        \<not> os_path_exists fs2 ?local \<or> (\<exists>e. open_rb fs2 ?local = Inl e)"
    using m by (simp add: compute_hashes_null)
  have r: "size_bytes m = length bs \<and>
        hashes m = \<lparr>md5 = Some (md5_hex env bs), sha1 = Some (sha1_hex env bs),
                     sha256 = Some (sha256_hex env bs)\<rparr>"
    if "open_rb fs2 ?local = Inr bs" for bs
  proof -
    from that have ex: "os_path_exists fs2 ?local" and sz: "os_path_getsize fs2 ?local = length bs"
      by (auto simp: open_rb_def os_path_exists_def os_path_getsize_def
            split: option.splits fs_node.splits if_splits)
    have "concat (read_chunks chunk_size bs) = bs"
      by (rule concat_read_chunks) (simp add: chunk_size_def)
    then show ?thesis using m ex sz that by (simp add: compute_hashes_def)
  qed
  show ?thesis using a h r mk pull by auto
qed

lemma extract_entries_props:
  assumes "extract_entries env dest_root items acc fs = Inr (manifest, fs')"
  shows "\<exists>new. manifest = acc @ new \<and>
     map remote_path new = map path (filter (\<lambda>e. \<not> is_dir e) items) \<and>
     (\<forall>m\<in>set new. \<exists>fs0 fs2. extract_entry env dest_root (remote_path m) fs0 = Inr (m, fs2))"
  using assms
proof (induction items arbitrary: acc fs)
  case Nil
  then show ?case by simp
next
  case (Cons e es)
  show ?case
  proof (cases "is_dir e")
    case True
    with Cons.prems have "extract_entries env dest_root es acc fs = Inr (manifest, fs')" by simp
    from Cons.IH[OF this] show ?thesis using True by simp
  next
    case False
    with Cons.prems obtain m fs1 where
      one: "extract_entry env dest_root (path e) fs = Inr (m, fs1)"
      and rest: "extract_entries env dest_root es (acc @ [m]) fs1 = Inr (manifest, fs')"
      by (auto split: sum.splits)
    from Cons.IH[OF rest] obtain new where new:
      "manifest = (acc @ [m]) @ new"
      "map remote_path new = map path (filter (\<lambda>e. \<not> is_dir e) es)"
      "\<forall>m\<in>set new. \<exists>fs0 fs2. extract_entry env dest_root (remote_path m) fs0 = Inr (m, fs2)"
      by blast
    have rp: "remote_path m = path e" using extract_entry_props[OF one] by simp
    show ?thesis
    proof (intro exI[of _ "m # new"] conjI)
      show "manifest = acc @ m # new" using new(1) by simp
      show "map remote_path (m # new) = map path (filter (\<lambda>e. \<not> is_dir e) (e # es))"
        using new(2) rp False by simp
      show "\<forall>m\<in>set (m # new). \<exists>fs0 fs2. extract_entry env dest_root (remote_path m) fs0 = Inr (m, fs2)"
        using new(3) one rp by auto
    qed
  qed
qed

lemma extract_entries_total:
  assumes "\<forall>p f. \<exists>f'. os_makedirs env p f = Inr f'"
  shows "\<exists>manifest fs'. extract_entries env dest_root items acc fs = Inr (manifest, fs')"
proof (induction items arbitrary: acc fs)
  case Nil
  show ?case by simp
next
  case (Cons e es)
  show ?case
  proof (cases "is_dir e")
    case True
    then show ?thesis using Cons.IH by simp
  next
    case False
    let ?local = "os_path_join dest_root (lstrip_chars ''/'' (path e))"
    from assms obtain f1 where "os_makedirs env (os_path_dirname ?local) fs = Inr f1" by blast
    then obtain m f2 where "extract_entry env dest_root (path e) fs = Inr (m, f2)"
      by (cases "adb_pull env (path e) ?local f1") (simp add: extract_entry_def Let_def)
    then show ?thesis using False Cons.IH[of "acc @ [m]" f2] by simp
  qed
qed

lemma rstrip_chars_idem: "rstrip_chars cs (rstrip_chars cs s) = rstrip_chars cs s"
  by (simp add: rstrip_chars_def dropWhile_idem)

lemma brute_scan_fs_rstrip:
  "brute_scan_fs ls isd (rstrip_chars ''/'' r) = brute_scan_fs ls isd r"
  by (simp add: brute_scan_fs_def rstrip_chars_idem)

text \<open>
  Claim C4, amended. When the discovery returns and no creation of a local directory
  raises, \<open>brute_extract_folder\<close> returns a manifest with exactly one entry per discovered
  non-directory path, in discovery order, whatever the pulls answered. Each entry was built
  from the local file system \<open>fs2\<close> right after its pull: its three hashes are all null
  exactly when the local path does not exist there or the file cannot be opened for
  reading; when the file can be read, the recorded size is its length and the hashes are
  its three digests.
\<close>

theorem brute_extract_manifest:
  assumes mk: "\<forall>p f. \<exists>f'. os_makedirs env p f = Inr f'"
    and scan: "brute_scan_fs ls isd remote_root = Some fs_items"
  shows "\<exists>manifest fs'.
     brute_extract_folder env ls isd remote_root dest_root fs = Some (Inr (manifest, fs')) \<and>
     map remote_path manifest = map path (filter (\<lambda>e. \<not> is_dir e) fs_items) \<and>
     (\<forall>m\<in>set manifest. \<exists>fs1 fs2.
        adb_pull env (remote_path m) (local_path m) fs1 = (adb_result m, fs2) \<and>
        (hashes m = null_digests \<longleftrightarrow>
           \<not> os_path_exists fs2 (local_path m) \<or> (\<exists>e. open_rb fs2 (local_path m) = Inl e)) \<and>
        (\<forall>bs. open_rb fs2 (local_path m) = Inr bs \<longrightarrow>
           size_bytes m = length bs \<and>
           hashes m = \<lparr>md5 = Some (md5_hex env bs), sha1 = Some (sha1_hex env bs),
                        sha256 = Some (sha256_hex env bs)\<rparr>))"
proof -
  from mk obtain fs1 where fs1: "os_makedirs env (abspath env dest_root) fs = Inr fs1" by blast
  from extract_entries_total[OF mk] obtain manifest fs' where
    run: "extract_entries env (abspath env dest_root) fs_items [] fs1 = Inr (manifest, fs')"
    by blast
  have whole: "brute_extract_folder env ls isd remote_root dest_root fs = Some (Inr (manifest, fs'))"
    using fs1 run scan by (simp add: brute_extract_folder_def brute_scan_fs_rstrip Let_def)
  from extract_entries_props[OF run] have
    order: "map remote_path manifest = map path (filter (\<lambda>e. \<not> is_dir e) fs_items)"
    and each: "\<forall>m\<in>set manifest. \<exists>fs0 fs2.
        extract_entry env (abspath env dest_root) (remote_path m) fs0 = Inr (m, fs2)"
    by auto
  have "\<exists>fs1 fs2.
        adb_pull env (remote_path m) (local_path m) fs1 = (adb_result m, fs2) \<and>
        (hashes m = null_digests \<longleftrightarrow>
           \<not> os_path_exists fs2 (local_path m) \<or> (\<exists>e. open_rb fs2 (local_path m) = Inl e)) \<and>
        (\<forall>bs. open_rb fs2 (local_path m) = Inr bs \<longrightarrow>
           size_bytes m = length bs \<and>
           hashes m = \<lparr>md5 = Some (md5_hex env bs), sha1 = Some (sha1_hex env bs),
                        sha256 = Some (sha256_hex env bs)\<rparr>)"
    if "m \<in> set manifest" for m
  proof -
    from each that obtain fs0 fs2 where
      "extract_entry env (abspath env dest_root) (remote_path m) fs0 = Inr (m, fs2)" by blast
    from extract_entry_props[OF this] show ?thesis by blast
  qed
  with whole order show ?thesis by blast
qed

lemma notes_scan:
  "brute_scan_fs notes_list notes_is_dir ''/sdcard/'' =
     Some [\<lparr>path = ''/sdcard/notes.txt'', is_dir = False\<rparr>,
           \<lparr>path = ''/sdcard/DCIM'', is_dir = True\<rparr>]"
  by code_simp

lemma sample_env_fields:
  "md5_hex (sample_env after_pull answer) bs = ''md5-digest''"
  "sha1_hex (sample_env after_pull answer) bs = ''sha1-digest''"
  "sha256_hex (sample_env after_pull answer) bs = ''sha256-digest''"
  "abspath (sample_env after_pull answer) p = p"
  "os_makedirs (sample_env after_pull answer) p fs = Inr fs"
  "adb_pull (sample_env after_pull answer) remote local fs = (answer, after_pull)"
  by (simp_all add: sample_env_def)

lemma sample_local_path:
  "os_path_join ''/evidence'' (lstrip_chars ''/'' ''/sdcard/notes.txt'') = ''/evidence/sdcard/notes.txt''"
  by (simp add: os_path_join_def lstrip_chars_def)

text \<open>
  Claim C4, as stated, fails: the local file exists after the pull attempt, it cannot be
  opened, \<open>compute_hashes\<close> catches the exception, and the entry carries three null hashes.
\<close>

theorem unreadable_file_null_hashes:
  "brute_extract_folder (sample_env locked_fs ''adb: error: cannot create file: Permission denied'')
       notes_list notes_is_dir ''/sdcard/'' ''/evidence'' locked_fs
     = Some (Inr ([\<lparr>remote_path = ''/sdcard/notes.txt'',
                      local_path = ''/evidence/sdcard/notes.txt'',
                      size_bytes = 3, mtime = (0, 0),
                      hashes = \<lparr>md5 = None, sha1 = None, sha256 = None\<rparr>,
                      adb_result = ''adb: error: cannot create file: Permission denied''\<rparr>],
                  locked_fs)) \<and>
   os_path_exists locked_fs ''/evidence/sdcard/notes.txt''"
  by (simp add: brute_extract_folder_def brute_scan_fs_rstrip notes_scan sample_env_fields
        extract_entry_def sample_local_path Let_def os_path_exists_def os_path_getsize_def
        os_path_getmtime_def compute_hashes_def open_rb_def null_digests_def locked_fs_def)

text \<open>The amended claim at the host where the pull succeeds.\<close>

theorem brute_extract_manifest_witness:
  "brute_scan_fs notes_list notes_is_dir ''/sdcard/'' =
     Some [\<lparr>path = ''/sdcard/notes.txt'', is_dir = False\<rparr>,
           \<lparr>path = ''/sdcard/DCIM'', is_dir = True\<rparr>] \<and>
   brute_extract_folder (sample_env pulled_fs ''1 file pulled.'')
       notes_list notes_is_dir ''/sdcard/'' ''/evidence'' empty_fs
     = Some (Inr ([\<lparr>remote_path = ''/sdcard/notes.txt'',
                      local_path = ''/evidence/sdcard/notes.txt'',
                      size_bytes = 3, mtime = (0, 0),
                      hashes = \<lparr>md5 = Some ''md5-digest'', sha1 = Some ''sha1-digest'',
                                 sha256 = Some ''sha256-digest''\<rparr>,
                      adb_result = ''1 file pulled.''\<rparr>],
                  pulled_fs))"
proof -
  have mk: "\<forall>p f. \<exists>f'. os_makedirs (sample_env pulled_fs ''1 file pulled.'') p f = Inr f'"
    by (simp add: sample_env_fields)
  have cc: "concat (read_chunks chunk_size [1, 2, 3 :: byte]) = [1, 2, 3]"
    by (rule concat_read_chunks) (simp add: chunk_size_def)
  have run: "brute_extract_folder (sample_env pulled_fs ''1 file pulled.'')
       notes_list notes_is_dir ''/sdcard/'' ''/evidence'' empty_fs
     = Some (Inr ([\<lparr>remote_path = ''/sdcard/notes.txt'',
                      local_path = ''/evidence/sdcard/notes.txt'',
                      size_bytes = 3, mtime = (0, 0),
                      hashes = \<lparr>md5 = Some ''md5-digest'', sha1 = Some ''sha1-digest'',
                                 sha256 = Some ''sha256-digest''\<rparr>,
                      adb_result = ''1 file pulled.''\<rparr>],
                  pulled_fs))"
    by (simp add: brute_extract_folder_def brute_scan_fs_rstrip notes_scan sample_env_fields
        extract_entry_def sample_local_path Let_def os_path_exists_def os_path_getsize_def
        os_path_getmtime_def compute_hashes_def open_rb_def pulled_fs_def cc)
  from brute_extract_manifest [OF mk notes_scan, of "''/evidence''" empty_fs] run notes_scan
  show ?thesis by simp
qed

subsection \<open>Multi-strategy parser\<close>

lemma sms_literal_groups:
  "map (\<lambda>m. (safe_group m ''address'' [], safe_group m ''date'' [], safe_group m ''body'' []))
     (re_finditer (Flags False True) sms_row_re sms_literal_input)
   = [(''+15551234567'', ''1700000000000'', ''Hello there''),
      (''+15559876543'', ''1700000100000'', ''See you soon'')]"
  by code_simp

lemma sms_strategy1_groups:
  "sms_strategy1 utc_offset text =
     concat (map (\<lambda>(addr, date_ms, body).
                if addr \<noteq> [] \<or> body \<noteq> [] then [sms_record utc_offset addr date_ms body] else [])
       (map (\<lambda>m. (safe_group m ''address'' [], safe_group m ''date'' [], safe_group m ''body'' []))
          (re_finditer (Flags False True) sms_row_re text)))"
  by (simp add: sms_strategy1_def Let_def comp_def)

lemma sms_literal_text:
  "sms_literal_input \<noteq> []" "strip_comment_lines sms_literal_input = sms_literal_input"
  "py_strip sms_literal_input \<noteq> []"
  by code_simp+

lemma py_int_literal:
  "py_int ''1700000000000'' = Inr 1700000000000" "py_int ''1700000100000'' = Inr 1700000100000"
  by code_simp+

lemma civil_2023:
  "civil_from_days 19674 = (2023, 11, 13)" "civil_from_days 19675 = (2023, 11, 14)"
  "civil_from_days 19676 = (2023, 11, 15)"
  by code_simp+

lemma show_2023: "show_int 2023 = ''2023''"
  by code_simp

lemma date_in_november_2023:
  assumes "19674 \<le> (secs + utc_offset secs) div 86400"
    and "(secs + utc_offset secs) div 86400 \<le> 19676"
  shows "fromtimestamp_strftime utc_offset secs = Inr (format_datetime (secs + utc_offset secs)) \<and>
         take 8 (format_datetime (secs + utc_offset secs)) = ''2023-11-'' \<and>
         format_datetime (secs + utc_offset secs) \<noteq> ''Unknown''"
proof -
  let ?t = "secs + utc_offset secs"
  from assms have "?t div 86400 = 19674 \<or> ?t div 86400 = 19675 \<or> ?t div 86400 = 19676" by arith
  then obtain d where c: "civil_from_days (?t div 86400) = (2023, 11, d)"
    using civil_2023 by auto
  have p: "pad2 11 = ''11''" by code_simp
  have f: "take 8 (format_datetime ?t) = ''2023-11-''"
    by (simp add: format_datetime_def c show_2023 p Let_def)
  then have "format_datetime ?t \<noteq> ''Unknown''" by auto
  moreover have "fromtimestamp_strftime utc_offset secs = Inr (format_datetime ?t)"
    using c by (simp add: fromtimestamp_strftime_def Let_def)
  ultimately show ?thesis using f by simp
qed

text \<open>
  Claim C7. On the literal two-row input \<open>parse_sms_text\<close> returns exactly two records, with
  the addresses, epoch values and bodies of the two rows. Their \<open>date\<close> fields are the
  formatted local times of 1700000000 and 1700000100 seconds: for every local time zone
  (an offset of less than a day) they read \<open>2023-11-...\<close> and are not "Unknown".
\<close>

theorem parse_sms_literal:
  assumes "\<bar>utc_offset 1700000000\<bar> < 86400" and "\<bar>utc_offset 1700000100\<bar> < 86400"
  shows "parse_sms_text utc_offset sms_literal_input =
           [[(''address'', ''+15551234567''), (''date_epoch_ms'', ''1700000000000''),
             (''date'', format_datetime (1700000000 + utc_offset 1700000000)),
             (''body'', ''Hello there'')],
            [(''address'', ''+15559876543''), (''date_epoch_ms'', ''1700000100000''),
             (''date'', format_datetime (1700000100 + utc_offset 1700000100)),
             (''body'', ''See you soon'')]] \<and>
         take 8 (format_datetime (1700000000 + utc_offset 1700000000)) = ''2023-11-'' \<and>
         take 8 (format_datetime (1700000100 + utc_offset 1700000100)) = ''2023-11-'' \<and>
         format_datetime (1700000000 + utc_offset 1700000000) \<noteq> ''Unknown'' \<and>
         format_datetime (1700000100 + utc_offset 1700000100) \<noteq> ''Unknown''"
proof -
  let ?t1 = "1700000000 + utc_offset 1700000000" and ?t2 = "1700000100 + utc_offset 1700000100"
  have r1: "19674 \<le> ?t1 div 86400" "?t1 div 86400 \<le> 19676" using assms(1) by arith+
  have r2: "19674 \<le> ?t2 div 86400" "?t2 div 86400 \<le> 19676" using assms(2) by arith+
  note d1 = date_in_november_2023[where secs = 1700000000 and utc_offset = utc_offset, OF r1]
  note d2 = date_in_november_2023[where secs = 1700000100 and utc_offset = utc_offset, OF r2]
  have e1: "date_text utc_offset ''1700000000000'' = format_datetime ?t1"
    using d1 by (simp add: date_text_def epoch_ms_to_str_def py_int_literal)
  have e2: "date_text utc_offset ''1700000100000'' = format_datetime ?t2"
    using d2 by (simp add: date_text_def epoch_ms_to_str_def py_int_literal)
  have s1: "sms_strategy1 utc_offset sms_literal_input =
           [[(''address'', ''+15551234567''), (''date_epoch_ms'', ''1700000000000''),
             (''date'', format_datetime ?t1), (''body'', ''Hello there'')],
            [(''address'', ''+15559876543''), (''date_epoch_ms'', ''1700000100000''),
             (''date'', format_datetime ?t2), (''body'', ''See you soon'')]]"
    unfolding sms_strategy1_groups sms_literal_groups
    by (simp add: sms_record_def e1 e2)
  have "parse_sms_text utc_offset sms_literal_input = sms_strategy1 utc_offset sms_literal_input"
    using s1 by (simp add: parse_sms_text_def sms_literal_text Let_def)
  with s1 d1 d2 show ?thesis by simp
qed

text \<open>In UTC the two dates are 2023-11-14 22:13:20 and 2023-11-14 22:15:00.\<close>

theorem parse_sms_literal_witness:
  "\<bar>utc 1700000000\<bar> < 86400 \<and> \<bar>utc 1700000100\<bar> < 86400 \<and>
   parse_sms_text utc sms_literal_input =
           [[(''address'', ''+15551234567''), (''date_epoch_ms'', ''1700000000000''),
             (''date'', ''2023-11-14 22:13:20''), (''body'', ''Hello there'')],
            [(''address'', ''+15559876543''), (''date_epoch_ms'', ''1700000100000''),
             (''date'', ''2023-11-14 22:15:00''), (''body'', ''See you soon'')]]"
proof -
  have a: "\<bar>utc 1700000000\<bar> < 86400" "\<bar>utc 1700000100\<bar> < 86400" by (simp_all add: utc_def)
  have f: "format_datetime (1700000000 + utc 1700000000) = ''2023-11-14 22:13:20''"
    "format_datetime (1700000100 + utc 1700000100) = ''2023-11-14 22:15:00''"
    by code_simp+
  from parse_sms_literal [OF a] a f show ?thesis by simp
qed

text \<open>
  Claim C5 fails for \<open>parse_contacts_text\<close>: it runs its pattern over the raw text, so a row
  in a line that starts with \<open>#\<close> is returned, and the result differs from the result on the
  input without the comment lines. \<open>parse_sms_text\<close> skips such a line.
\<close>

theorem contacts_reads_comment_lines:
  "parse_contacts_text contacts_dump =
     Inr [[(''name'', ''Old Entry''), (''number'', ''555 0000'')],
          [(''name'', ''Alice''), (''number'', ''+1 555 1234'')]] \<and>
   parse_contacts_text (strip_comment_lines contacts_dump) =
     Inr [[(''name'', ''Alice''), (''number'', ''+1 555 1234'')]] \<and>
   parse_sms_text utc sms_dump =
     [[(''address'', ''+15551234567''), (''date_epoch_ms'', ''1700000000000''),
       (''date'', ''2023-11-14 22:13:20''), (''body'', ''Hello there'')]]"
  by code_simp

end
